theory Spec2Isabelle
  imports Complex_Main
begin

section \<open>The as-pect command line runner: \<open>asp\<close> in \<open>src/cli.ts\<close>\<close>

text \<open>
  This theory embeds the branch of \<open>asp\<close> that runs the compiler and the test suite
  (\<open>src/cli.ts\<close>, from the loading of the configuration to the end of the function).
  The collaborators the function calls (\<open>glob.sync\<close>, the functions of Node's \<open>path\<close>
  module, \<open>asc.main\<close>, the \<open>TestContext\<close> runner) are parameters, collected in the
  record \<open>env\<close>. Mutable variables of the closure (\<open>binaries\<close>, \<open>sourcemaps\<close>, \<open>count\<close>,
  \<open>failed\<close>) and the effects on the outside (console, file system, process exit) are the
  fields of the record \<open>state\<close>.
\<close>

subsection \<open>Data\<close>

type_synonym bytes = "nat list"

text \<open>
  A \<open>RegExp\<close> object, as \<open>regexp.test(file)\<close> uses it: the matcher of its pattern
  (\<open>regexp_matcher R S i\<close> is the end of the match of the pattern in \<open>S\<close> that begins at
  the index \<open>i\<close>, if there is one), the flags \<open>g\<close> and \<open>y\<close>, and the property \<open>lastIndex\<close>,
  which \<open>test\<close> reads and writes when one of the two flags is set. Indices count the
  characters of a \<open>string\<close>, which for a path in ASCII are the code units JavaScript counts.
\<close>

record regexp =
  regexp_matcher :: "string \<Rightarrow> nat \<Rightarrow> nat option"
  global :: bool
  sticky :: bool
  lastIndex :: nat

text \<open>
  \<open>ICompilerFlags\<close>: the properties of the object, in the order of their insertion (an
  object has a key once).
\<close>

type_synonym compiler_flags = "(string \<times> string list) list"

text \<open>\<open>IConfiguration\<close>: every property is optional; \<open>None\<close> is \<open>undefined\<close>.\<close>

record configuration =
  c_include :: "string list option"
  c_add :: "string list option"
  c_flags :: "compiler_flags option"
  c_disclude :: "regexp list option"

text \<open>
  The value \<open>require(configurationPath)\<close> evaluates to can be any JavaScript value. A finite
  number is the real it denotes (both zeros are \<open>0\<close>).
\<close>

datatype jsvalue =
    JUndefined
  | JNull
  | JBoolean bool
  | JNaN
  | JInfinity bool
  | JNumber real
  | JString string
  | JObject configuration

text \<open>The collaborators.\<close>

record env =
  glob_sync :: "string \<Rightarrow> string list"
  extname :: "string \<Rightarrow> string"
  dirname :: "string \<Rightarrow> string"
  basename :: "string \<Rightarrow> string \<Rightarrow> string"
  join :: "string \<Rightarrow> string \<Rightarrow> string"
  relativeEntryPath :: string
  asc_main :: "string list \<Rightarrow> (string \<times> bytes) list \<times> string option"
  runner_pass :: "bytes \<Rightarrow> bool"

text \<open>
  \<open>asc_main E args\<close> is what one call of \<open>asc.main\<close> with the arguments \<open>args\<close> does to its
  two callbacks: the calls of \<open>writeFile\<close> it makes, in order, and the error (or \<open>null\<close>, here
  \<open>None\<close>) it hands to the completion callback. \<open>runner_pass E wasm\<close> is the value of
  \<open>runner.pass\<close> after \<open>instantiateBuffer\<close> and \<open>runner.run\<close> on the binary \<open>wasm\<close>,
  with the imports and the reporter of the configuration; both calls are taken to return.
\<close>

record state =
  binaries :: "nat \<rightharpoonup> bytes"
  sourcemaps :: "string \<rightharpoonup> bytes"
  count :: int
  failed :: bool
  stdout :: "string list"
  stderr :: "string list"
  disk :: "(string \<times> bytes) list"
  invoked :: "string list list"
  loaded :: "bytes list"
  exited :: "int option"

text \<open>
  \<open>stdout\<close> and \<open>stderr\<close> are the lines given to \<open>console.log\<close> and \<open>console.error\<close>,
  \<open>disk\<close> the calls of \<open>fs.writeFileSync\<close>, \<open>invoked\<close> the argument lists given to
  \<open>asc.main\<close>, \<open>loaded\<close> the buffers given to \<open>instantiateBuffer\<close>, all in the order of
  the calls. \<open>exited\<close> is the status of \<open>process.exit\<close>, once it has been called.
\<close>

subsection \<open>Resolving the files\<close>

text \<open>\<open>lodash.uniq\<close>: a value is pushed to the result unless the result already has it.\<close>

definition uniq :: "'a list \<Rightarrow> 'a list" where
  "uniq array =
     fold (\<lambda>value result. if value \<in> set result then result else result @ [value]) array []"

text \<open>The loops \<open>for (const pattern of ...) files.push(...glob.sync(pattern))\<close>.\<close>

definition push_globs :: "env \<Rightarrow> string list \<Rightarrow> string list" where
  "push_globs E patterns = fold (\<lambda>pattern files. files @ glob_sync E pattern) patterns []"

text \<open>
  \<open>RegExp.prototype.test\<close>, by \<open>RegExpBuiltinExec\<close> of the language: without the flags \<open>g\<close>
  and \<open>y\<close> the search starts at index 0 and \<open>lastIndex\<close> is left alone; with one of them it
  starts at \<open>lastIndex\<close>, which becomes the end of the match, or 0 when there is none. With
  \<open>y\<close> the match has to begin at the start index; otherwise it begins at the first index,
  from the start index to the length of the string, where the matcher succeeds.
\<close>

definition first_match :: "(string \<Rightarrow> nat \<Rightarrow> nat option) \<Rightarrow> string \<Rightarrow> nat \<Rightarrow> nat option" where
  "first_match matcher S start =
     (case List.map_filter (matcher S) [start..<Suc (length S)] of
        [] \<Rightarrow> None
      | e # _ \<Rightarrow> Some e)"

definition regexp_test :: "regexp \<Rightarrow> string \<Rightarrow> bool \<times> regexp" where
  "regexp_test R S =
     (let start = (if global R \<or> sticky R then lastIndex R else 0);
          r = (if length S < start then None
               else if sticky R then regexp_matcher R S start
               else first_match (regexp_matcher R) S start)
      in case r of
           None \<Rightarrow> (False, if global R \<or> sticky R then R\<lparr>lastIndex := 0\<rparr> else R)
         | Some e \<Rightarrow> (True, if global R \<or> sticky R then R\<lparr>lastIndex := e\<rparr> else R))"

text \<open>
  \<open>testEntryFiles.filter(file => !regexp.test(file))\<close>: the files are tested in order, on
  the one object \<open>regexp\<close>.
\<close>

fun filter_not_test :: "regexp \<Rightarrow> string list \<Rightarrow> string list \<times> regexp" where
  "filter_not_test regexp [] = ([], regexp)"
| "filter_not_test regexp (file # files) =
     (let (matched, regexp) = regexp_test regexp file;
          (kept, regexp) = filter_not_test regexp files
      in (if \<not> matched then file # kept else kept, regexp))"

text \<open>
  \<open>disclude.forEach(regexp => ...)\<close>; every element of \<open>disclude\<close> is an object of its own.
\<close>

definition apply_disclude :: "regexp list \<Rightarrow> string list \<Rightarrow> string list" where
  "apply_disclude disclude testEntryFiles =
     fold (\<lambda>regexp files. fst (filter_not_test regexp files)) disclude testEntryFiles"

text \<open>
  The pair \<open>(testEntryFiles, addedTestEntryFiles)\<close> after the \<open>disclude.forEach\<close>.
\<close>

definition resolve_files ::
  "env \<Rightarrow> string list \<Rightarrow> string list \<Rightarrow> regexp list \<Rightarrow> string list \<times> string list" where
  "resolve_files E incl add disclude =
     (let testEntryFiles = push_globs E incl;
          addedTestEntryFiles = push_globs E add;
          testEntryFiles = uniq testEntryFiles;
          testEntryFiles = apply_disclude disclude testEntryFiles
      in (testEntryFiles, addedTestEntryFiles))"

text \<open>
  What "deduplicated preserving first occurrence" means: the element at position \<open>i\<close> stays
  exactly when it does not occur before position \<open>i\<close>.
\<close>

definition first_occurrences :: "'a list \<Rightarrow> 'a list" where
  "first_occurrences xs =
     map (\<lambda>i. xs ! i) (filter (\<lambda>i. xs ! i \<notin> set (take i xs)) [0..<length xs])"

subsection \<open>The compiler's arguments\<close>

definition default_flags :: compiler_flags where
  "default_flags =
     [(''--validate'', []), (''--debug'', []), (''--measure'', []), (''--sourceMap'', []),
      (''--binaryFile'', [''output.wasm''])]"

text \<open>
  \<open>Object.entries\<close>: the keys that are array indices (the decimal numerals, without a
  leading zero, of the integers below \<open>2\<^sup>3\<^sup>2 - 1\<close>) come first, in ascending order of their
  value; the other keys follow in the order of their insertion.
\<close>

definition index_value :: "string \<Rightarrow> nat" where
  "index_value key = foldl (\<lambda>n c. 10 * n + (of_char c - 48)) 0 key"

definition is_array_index :: "string \<Rightarrow> bool" where
  "is_array_index key =
     (key \<noteq> [] \<and> list_all (\<lambda>c. c \<in> set ''0123456789'') key
      \<and> (key = ''0'' \<or> hd key \<noteq> CHR ''0'') \<and> index_value key < 4294967295)"

definition object_entries :: "(string \<times> 'v) list \<Rightarrow> (string \<times> 'v) list" where
  "object_entries object =
     sort_key (\<lambda>(key, v). index_value key) (filter (\<lambda>(key, v). is_array_index key) object)
       @ filter (\<lambda>(key, v). \<not> is_array_index key) object"

text \<open>\<open>Object.entries(flags).reduce((args, [flag, options]) => args.concat(flag, options), [])\<close>\<close>

definition flagList :: "compiler_flags \<Rightarrow> string list" where
  "flagList flags =
     foldl (\<lambda>args (flag, options). args @ flag # options) [] (object_entries flags)"

definition compiler_args :: "string \<Rightarrow> string list \<Rightarrow> string list \<Rightarrow> string list" where
  "compiler_args file addedTestEntryFiles flags = file # addedTestEntryFiles @ flags"

subsection \<open>Loading the configuration\<close>

fun truthy :: "jsvalue \<Rightarrow> bool" where
  "truthy JUndefined = False"
| "truthy JNull = False"
| "truthy (JBoolean b) = b"
| "truthy JNaN = False"
| "truthy (JInfinity negative) = True"
| "truthy (JNumber x) = (x \<noteq> 0)"
| "truthy (JString s) = (s \<noteq> [])"
| "truthy (JObject c) = True"

definition empty_object :: configuration where
  "empty_object = \<lparr>c_include = None, c_add = None, c_flags = None, c_disclude = None\<rparr>"

text \<open>
  The three ways past the \<open>try\<close> and the check \<open>if (!configuration)\<close>: the \<open>catch\<close> block
  (which exits), the block of the check (which exits), and the rest of the function.
\<close>

datatype load_result =
    ProblemLoading string
  | NullOrNotObject
  | Loaded jsvalue

text \<open>\<open>required\<close> is what \<open>require(configurationPath)\<close> does: it throws (\<open>Inl\<close>) or returns.\<close>

definition load_configuration :: "string + jsvalue \<Rightarrow> load_result" where
  "load_configuration required =
     (case required of
        Inl ex \<Rightarrow> ProblemLoading ex
      | Inr exported \<Rightarrow>
          (let configuration = (if truthy exported then exported else JObject empty_object)
           in if \<not> truthy configuration then NullOrNotObject else Loaded configuration))"

text \<open>Reading a property of a value that is no object gives \<open>undefined\<close>.\<close>

fun properties :: "jsvalue \<Rightarrow> configuration" where
  "properties (JObject c) = c"
| "properties v = empty_object"

text \<open>\<open>x || d\<close> for a property that is an array or an object when it is defined.\<close>

fun or_default :: "'a option \<Rightarrow> 'a \<Rightarrow> 'a" where
  "or_default (Some x) d = x"
| "or_default None d = d"

subsection \<open>One unit: the write sink and the completion callback\<close>

fun toString :: "nat \<Rightarrow> string" where
  "toString n =
     (if n < 10 then [char_of (48 + n)]
      else toString (n div 10) @ [char_of (48 + n mod 10)])"

declare toString.simps [simp del]

definition process_exit :: "int \<Rightarrow> state \<Rightarrow> state" where
  "process_exit status s = s\<lparr>exited := Some status\<rparr>"

definition console_log :: "string \<Rightarrow> state \<Rightarrow> state" where
  "console_log line s = s\<lparr>stdout := stdout s @ [line]\<rparr>"

definition console_error :: "string \<Rightarrow> state \<Rightarrow> state" where
  "console_error line s = s\<lparr>stderr := stderr s @ [line]\<rparr>"

definition outfileName :: "env \<Rightarrow> string \<Rightarrow> string \<Rightarrow> string" where
  "outfileName E file ext =
     join E (dirname E file) (basename E file (extname E file) @ ext)"

text \<open>The method \<open>writeFile(name, contents)\<close> of the options given to \<open>asc.main\<close>.\<close>

definition writeFile :: "env \<Rightarrow> string \<Rightarrow> nat \<Rightarrow> string \<Rightarrow> bytes \<Rightarrow> state \<Rightarrow> state" where
  "writeFile E file i name contents s =
     (let ext = extname E name
      in if ext = ''.wasm'' then s\<lparr>binaries := (binaries s)(i \<mapsto> contents)\<rparr>
         else if ext = ''.map'' then s\<lparr>sourcemaps := (sourcemaps s)(name \<mapsto> contents)\<rparr>
         else s\<lparr>disk := disk s @ [(outfileName E file ext, contents)]\<rparr>)"

definition compile_error_message :: "string \<Rightarrow> string" where
  "compile_error_message file =
     ''There was a compilation error when trying to create the wasm binary for file: ''
       @ file @ ''.''"

definition no_binary_message :: "string \<Rightarrow> string" where
  "no_binary_message file =
     ''There was no output binary file: '' @ file @ ''. Did you forget to emit the binary?''"

text \<open>The completion callback \<open>function (error: Error | null): number\<close>.\<close>

definition callback :: "env \<Rightarrow> string \<Rightarrow> nat \<Rightarrow> string option \<Rightarrow> state \<Rightarrow> state" where
  "callback E file i error s =
     (case error of
        Some e \<Rightarrow>
          process_exit 1
            ((console_error e (console_log (compile_error_message file) s))
               \<lparr>count := count s - 1\<rparr>)
      | None \<Rightarrow>
          (case binaries s i of
             None \<Rightarrow>
               process_exit 1
                 ((console_log (no_binary_message file) s)\<lparr>count := count s - 1\<rparr>)
           | Some wasm \<Rightarrow>
               (let s = s\<lparr>loaded := loaded s @ [wasm]\<rparr>;
                    pass = runner_pass E wasm;
                    s = s\<lparr>count := count s - 1\<rparr>;
                    s = s\<lparr>failed := (failed s \<or> \<not> pass)\<rparr>
                in if count s = 0 \<and> failed s then process_exit 1 s else s)))"

text \<open>
  The body of \<open>testEntryFiles.forEach((file, i) => ...)\<close> for the index \<open>i\<close>, with the
  compilation run to its completion: the line on the console, the call of \<open>asc.main\<close>, the
  writes the compiler asks for, and the completion callback. Nothing runs once
  \<open>process.exit\<close> has been called, and \<open>forEach\<close> has no index beyond the array.
\<close>

definition compile_unit ::
  "env \<Rightarrow> string list \<Rightarrow> string list \<Rightarrow> string list \<Rightarrow> nat \<Rightarrow> state \<Rightarrow> state" where
  "compile_unit E testEntryFiles addedTestEntryFiles flags i s =
     (if exited s \<noteq> None \<or> \<not> i < length testEntryFiles then s
      else
        (let file = testEntryFiles ! i;
             s = console_log
                   (''Compiling: '' @ file @ '' '' @ toString (i + 1) @ '' / ''
                      @ toString (length testEntryFiles)) s;
             args = compiler_args file addedTestEntryFiles flags;
             s = s\<lparr>invoked := invoked s @ [args]\<rparr>;
             (writes, error) = asc_main E args;
             s = fold (\<lambda>(name, contents). writeFile E file i name contents) writes s
         in callback E file i error s))"

text \<open>
  The units complete in some order; \<open>forEach\<close> with a compiler that calls back before it
  returns is the order \<open>[0..<length testEntryFiles]\<close>. In \<open>run_units\<close> a unit begins when it
  is its turn to complete, which is what the code does in that order.
\<close>

definition run_units ::
  "env \<Rightarrow> string list \<Rightarrow> string list \<Rightarrow> string list \<Rightarrow> nat list \<Rightarrow> state \<Rightarrow> state" where
  "run_units E testEntryFiles addedTestEntryFiles flags order s =
     fold (compile_unit E testEntryFiles addedTestEntryFiles flags) order s"

text \<open>
  The two halves of the body of \<open>forEach\<close>: what it does itself, the line on the console
  and the call of \<open>asc.main\<close>, and what the compiler does with the two callbacks, at once or
  later.
\<close>

definition issue_unit ::
  "env \<Rightarrow> string list \<Rightarrow> string list \<Rightarrow> string list \<Rightarrow> nat \<Rightarrow> state \<Rightarrow> state" where
  "issue_unit E testEntryFiles addedTestEntryFiles flags i s =
     (if exited s \<noteq> None \<or> \<not> i < length testEntryFiles then s
      else
        (let file = testEntryFiles ! i;
             s = console_log
                   (''Compiling: '' @ file @ '' '' @ toString (i + 1) @ '' / ''
                      @ toString (length testEntryFiles)) s;
             args = compiler_args file addedTestEntryFiles flags
         in s\<lparr>invoked := invoked s @ [args]\<rparr>))"

definition complete_unit ::
  "env \<Rightarrow> string list \<Rightarrow> string list \<Rightarrow> string list \<Rightarrow> nat \<Rightarrow> state \<Rightarrow> state" where
  "complete_unit E testEntryFiles addedTestEntryFiles flags i s =
     (if exited s \<noteq> None \<or> \<not> i < length testEntryFiles then s
      else
        (let file = testEntryFiles ! i;
             args = compiler_args file addedTestEntryFiles flags;
             (writes, error) = asc_main E args;
             s = fold (\<lambda>(name, contents). writeFile E file i name contents) writes s
         in callback E file i error s))"

text \<open>
  A compiler that returns before it completes: \<open>forEach\<close> goes through all the indices,
  and the units complete afterwards, in some order.
\<close>

definition run_deferred ::
  "env \<Rightarrow> string list \<Rightarrow> string list \<Rightarrow> string list \<Rightarrow> nat list \<Rightarrow> state \<Rightarrow> state" where
  "run_deferred E testEntryFiles addedTestEntryFiles flags order s =
     fold (complete_unit E testEntryFiles addedTestEntryFiles flags) order
       (fold (issue_unit E testEntryFiles addedTestEntryFiles flags)
          [0..<length testEntryFiles] s)"

definition initial_state :: state where
  "initial_state =
     \<lparr>binaries = Map.empty, sourcemaps = Map.empty, count = 0, failed = False,
      stdout = [], stderr = [], disk = [], invoked = [], loaded = [], exited = None\<rparr>"

fun join_comma :: "string list \<Rightarrow> string" where
  "join_comma [] = []"
| "join_comma [x] = x"
| "join_comma (x # xs) = x @ '', '' @ join_comma xs"

text \<open>
  The state at the line \<open>let count = testEntryFiles.length\<close>, with the files resolved.
\<close>

definition start_state :: "string list \<Rightarrow> state \<Rightarrow> state" where
  "start_state testEntryFiles s = s\<lparr>failed := False, count := int (length testEntryFiles)\<rparr>"

text \<open>
  The constants \<open>include\<close>, \<open>add\<close>, \<open>flags\<close> and \<open>disclude\<close>: the property of the
  configuration, or the default.
\<close>

definition include_of :: "jsvalue \<Rightarrow> string list" where
  "include_of configuration =
     or_default (c_include (properties configuration)) [''assembly/__tests__/**/*.spec.ts'']"

definition add_of :: "jsvalue \<Rightarrow> string list" where
  "add_of configuration =
     or_default (c_add (properties configuration)) [''assembly/__tests__/**/*.include.ts'']"

definition flags_of :: "jsvalue \<Rightarrow> compiler_flags" where
  "flags_of configuration = or_default (c_flags (properties configuration)) default_flags"

definition disclude_of :: "jsvalue \<Rightarrow> regexp list" where
  "disclude_of configuration = or_default (c_disclude (properties configuration)) []"

text \<open>
  The last branch of \<open>asp\<close>, from \<open>configurationPath\<close> on, with the units completing in the
  order that \<open>order\<close> makes of their indices.
\<close>

definition asp_run ::
  "env \<Rightarrow> string \<Rightarrow> string + jsvalue \<Rightarrow> (nat \<Rightarrow> nat list) \<Rightarrow> state" where
  "asp_run E configurationPath required order =
     (let s = console_log (''[Log] using configuration '' @ configurationPath) initial_state
      in case load_configuration required of
           ProblemLoading ex \<Rightarrow>
             process_exit 1
               (console_log ex
                 (console_log (''[Error] There was a problem loading ['' @ configurationPath
                                 @ ''].'')
                   (console_log [] s)))
         | NullOrNotObject \<Rightarrow>
             process_exit 1
               (console_log (''[Error] configuration at ['' @ configurationPath
                               @ ''] is null or not an object.'') s)
         | Loaded configuration \<Rightarrow>
             (let incl = include_of configuration;
                  add = add_of configuration;
                  flags = flags_of configuration;
                  disclude = disclude_of configuration;
                  s = console_log (''including files '' @ join_comma incl) s;
                  (testEntryFiles, addedTestEntryFiles) = resolve_files E incl add disclude;
                  addedTestEntryFiles = addedTestEntryFiles @ [relativeEntryPath E];
                  s = start_state testEntryFiles s
              in run_units E testEntryFiles addedTestEntryFiles (flagList flags)
                   (order (length testEntryFiles)) s))"

text \<open>The same branch with a compiler that returns before it completes.\<close>

definition asp_deferred ::
  "env \<Rightarrow> string \<Rightarrow> string + jsvalue \<Rightarrow> (nat \<Rightarrow> nat list) \<Rightarrow> state" where
  "asp_deferred E configurationPath required order =
     (let s = console_log (''[Log] using configuration '' @ configurationPath) initial_state
      in case load_configuration required of
           ProblemLoading ex \<Rightarrow>
             process_exit 1
               (console_log ex
                 (console_log (''[Error] There was a problem loading ['' @ configurationPath
                                 @ ''].'')
                   (console_log [] s)))
         | NullOrNotObject \<Rightarrow>
             process_exit 1
               (console_log (''[Error] configuration at ['' @ configurationPath
                               @ ''] is null or not an object.'') s)
         | Loaded configuration \<Rightarrow>
             (let incl = include_of configuration;
                  add = add_of configuration;
                  flags = flags_of configuration;
                  disclude = disclude_of configuration;
                  s = console_log (''including files '' @ join_comma incl) s;
                  (testEntryFiles, addedTestEntryFiles) = resolve_files E incl add disclude;
                  addedTestEntryFiles = addedTestEntryFiles @ [relativeEntryPath E];
                  s = start_state testEntryFiles s
              in run_deferred E testEntryFiles addedTestEntryFiles (flagList flags)
                   (order (length testEntryFiles)) s))"

text \<open>
  The status the process ends with: the argument of \<open>process.exit\<close>, or \<open>0\<close> when the
  function returns and nothing is left to run.
\<close>

definition exit_status :: "state \<Rightarrow> int" where
  "exit_status s = (case exited s of Some status \<Rightarrow> status | None \<Rightarrow> 0)"

subsection \<open>What a unit comes to\<close>

text \<open>
  The binary a unit has captured once its writes are done: the contents of the last write
  whose name has the extension \<open>.wasm\<close>.
\<close>

definition captured_binary :: "env \<Rightarrow> (string \<times> bytes) list \<Rightarrow> bytes option" where
  "captured_binary E writes =
     (case filter (\<lambda>(name, contents). extname E name = ''.wasm'') writes of
        [] \<Rightarrow> None
      | w # ws \<Rightarrow> Some (snd (last (w # ws))))"

datatype outcome = CompileError | MissingBinary | Ran bool

fun is_ran :: "outcome \<Rightarrow> bool" where
  "is_ran (Ran pass) = True"
| "is_ran CompileError = False"
| "is_ran MissingBinary = False"

definition unit_outcome :: "env \<Rightarrow> string list \<Rightarrow> outcome" where
  "unit_outcome E args =
     (case asc_main E args of
        (writes, Some e) \<Rightarrow> CompileError
      | (writes, None) \<Rightarrow>
          (case captured_binary E writes of
             None \<Rightarrow> MissingBinary
           | Some wasm \<Rightarrow> Ran (runner_pass E wasm)))"

text \<open>
  The units of an order that begin when each unit completes before the next begins: the
  units up to the first whose completion is fatal, and that one.
\<close>

definition started :: "(nat \<Rightarrow> bool) \<Rightarrow> nat list \<Rightarrow> nat list" where
  "started ok order = takeWhile ok order @ take 1 (dropWhile ok order)"

subsection \<open>The expectation and its negation\<close>

text \<open>
  Modelled from the spec: the class \<open>Expectation\<close> and the function \<open>expect\<close> of the
  assembly side are missing from the sources, which hold their declarations only
  (\<open>as-pect.d.ts\<close>). The spec: an Expectation "wraps one actual value; produces a boolean
  verdict per matcher call; carries a one-level negation flag that inverts the
  already-computed verdict", and \<open>.not\<close> "returns an Expectation bound to the same value
  whose next matcher call reports the logical negation of that matcher's normal verdict".
  The actual value is a \<open>T | null\<close>. A matcher computes its normal verdict from the actual
  value in the guest, whose state it may change (\<open>toThrow\<close> calls the value).
\<close>

record 'a expectation =
  actual :: "'a option"
  negated :: bool

type_synonym ('a, 'g) matcher = "'a option \<Rightarrow> 'g \<Rightarrow> bool \<times> 'g"

definition expect :: "'a option \<Rightarrow> 'a expectation" where
  "expect v = \<lparr>actual = v, negated = False\<rparr>"

definition expectation_not :: "'a expectation \<Rightarrow> 'a expectation" where
  "expectation_not e = e\<lparr>negated := True\<rparr>"

definition report :: "('a, 'g) matcher \<Rightarrow> 'a expectation \<Rightarrow> 'g \<Rightarrow> bool \<times> 'g" where
  "report matcher e g =
     (let (verdict, g) = matcher (actual e) g
      in (if negated e then \<not> verdict else verdict, g))"

text \<open>A matcher that counts its evaluations in the guest state: \<open>toBe(expected)\<close>.\<close>

definition toBe :: "'a option \<Rightarrow> ('a, nat) matcher" where
  "toBe expected v evaluations = (v = expected, Suc evaluations)"

subsection \<open>A sample environment\<close>

text \<open>
  Collaborators for running the definitions on concrete inputs: a file system with six
  files under \<open>t/\<close>, path functions for paths of the form \<open>dir/name.ext\<close>, a compiler that
  fails on \<open>t/bad.spec.ts\<close> and otherwise emits what its flags ask for, and a runner that
  passes unless the binary starts with the byte \<open>0\<close>.
\<close>

definition sample_glob :: "string \<Rightarrow> string list" where
  "sample_glob pattern =
     (if pattern = ''t/*.spec.ts''
      then [''t/a.spec.ts'', ''t/b.spec.ts'', ''t/skip.spec.ts'', ''t/skip2.spec.ts'']
      else if pattern = ''t/a.*'' then [''t/a.include.ts'', ''t/a.spec.ts'']
      else if pattern = ''t/*.include.ts'' then [''t/a.include.ts'', ''t/skip.include.ts'']
      else [])"

text \<open>
  The regular expression of a literal: \<open>literal_regexp ''skip'' False\<close> is \<open>/skip/\<close> and
  \<open>literal_regexp ''skip'' True\<close> is \<open>/skip/g\<close>.
\<close>

definition literal_regexp :: "string \<Rightarrow> bool \<Rightarrow> regexp" where
  "literal_regexp literal g =
     \<lparr>regexp_matcher =
        (\<lambda>S i. if take (length literal) (drop i S) = literal then Some (i + length literal)
               else None),
      global = g, sticky = False, lastIndex = 0\<rparr>"

definition sample_basename :: "string \<Rightarrow> string" where
  "sample_basename p = rev (takeWhile (\<lambda>c. c \<noteq> CHR ''/'') (rev p))"

definition sample_dirname :: "string \<Rightarrow> string" where
  "sample_dirname p =
     (let d = rev (drop 1 (dropWhile (\<lambda>c. c \<noteq> CHR ''/'') (rev p)))
      in if d = [] then ''.'' else d)"

definition sample_extname :: "string \<Rightarrow> string" where
  "sample_extname p =
     (let b = sample_basename p;
          e = rev (takeWhile (\<lambda>c. c \<noteq> CHR ''.'') (rev b))
      in if CHR ''.'' \<notin> set b \<or> Suc (length e) = length b then [] else CHR ''.'' # e)"

definition sample_basename_ext :: "string \<Rightarrow> string \<Rightarrow> string" where
  "sample_basename_ext p ext =
     (let b = sample_basename p
      in if ext \<noteq> [] \<and> length ext < length b \<and> drop (length b - length ext) b = ext
         then take (length b - length ext) b else b)"

definition sample_asc :: "string list \<Rightarrow> (string \<times> bytes) list \<times> string option" where
  "sample_asc args =
     (case args of
        [] \<Rightarrow> ([], Some ''ERROR: no entry file'')
      | file # rest \<Rightarrow>
          if file = ''t/bad.spec.ts'' then ([], Some ''ERROR TS2322: type mismatch'')
          else
            ((if ''--textFile'' \<in> set rest then [(''output.wat'', [40, 41])] else [])
               @ (if ''--binaryFile'' \<in> set rest
                  then [(''output.wasm'', [if file = ''t/b.spec.ts'' then 0 else 1, 97]),
                        (''output.wasm.map'', [123, 125])]
                  else []),
             None))"

definition sample_env :: env where
  "sample_env =
     \<lparr>glob_sync = sample_glob, extname = sample_extname, dirname = sample_dirname,
      basename = sample_basename_ext, join = (\<lambda>a b. a @ ''/'' @ b),
      relativeEntryPath = ''node_modules/as-pect/assembly/index.ts'',
      asc_main = sample_asc, runner_pass = (\<lambda>wasm. take 1 wasm \<noteq> [0])\<rparr>"

section \<open>Properties\<close>

subsection \<open>Auxiliary facts\<close>

subsubsection \<open>Lists\<close>

lemma push_globs_concat: "push_globs E patterns = concat (map (glob_sync E) patterns)"
proof -
  have "fold (\<lambda>pattern files. files @ glob_sync E pattern) patterns acc
          = acc @ concat (map (glob_sync E) patterns)" for acc
    by (induction patterns arbitrary: acc) simp_all
  then show ?thesis by (simp add: push_globs_def)
qed

lemma uniq_snoc:
  "uniq (xs @ [x]) = (if x \<in> set (uniq xs) then uniq xs else uniq xs @ [x])"
  by (simp add: uniq_def)

lemma set_uniq: "set (uniq xs) = set xs"
  by (induction xs rule: rev_induct) (auto simp: uniq_snoc, simp add: uniq_def)

lemma distinct_uniq: "distinct (uniq xs)"
  by (induction xs rule: rev_induct) (simp_all add: uniq_snoc, simp add: uniq_def)

lemma first_occurrences_snoc:
  "first_occurrences (xs @ [x]) = first_occurrences xs @ (if x \<in> set xs then [] else [x])"
proof -
  have "filter (\<lambda>i. (xs @ [x]) ! i \<notin> set (take i (xs @ [x]))) [0..<length xs]
          = filter (\<lambda>i. xs ! i \<notin> set (take i xs)) [0..<length xs]"
    by (rule filter_cong) (auto simp: nth_append)
  moreover have "map (\<lambda>i. (xs @ [x]) ! i) (filter (\<lambda>i. xs ! i \<notin> set (take i xs)) [0..<length xs])
          = map (\<lambda>i. xs ! i) (filter (\<lambda>i. xs ! i \<notin> set (take i xs)) [0..<length xs])"
    by (rule map_cong) (auto simp: nth_append)
  ultimately show ?thesis
    by (simp add: first_occurrences_def)
qed

lemma uniq_first_occurrences: "uniq xs = first_occurrences xs"
proof (induction xs rule: rev_induct)
  case Nil
  show ?case by (simp add: uniq_def first_occurrences_def)
next
  case (snoc x xs)
  show ?case by (simp add: uniq_snoc first_occurrences_snoc set_uniq snoc [symmetric])
qed

lemma regexp_test_stateless:
  assumes "\<not> global R" and "\<not> sticky R"
  shows "regexp_test R S = (first_match (regexp_matcher R) S 0 \<noteq> None, R)"
  using assms by (simp add: regexp_test_def Let_def split: option.splits)

lemma filter_not_test_stateless:
  assumes "\<not> global R" and "\<not> sticky R"
  shows "filter_not_test R files = (filter (\<lambda>f. \<not> fst (regexp_test R f)) files, R)"
  by (induction files) (simp_all add: regexp_test_stateless [OF assms])

lemma apply_disclude_stateless:
  assumes "\<forall>R \<in> set disclude. \<not> global R \<and> \<not> sticky R"
  shows "apply_disclude disclude files
           = filter (\<lambda>f. \<not> (\<exists>R \<in> set disclude. fst (regexp_test R f))) files"
proof -
  have "fold (\<lambda>regexp files. fst (filter_not_test regexp files)) disclude files
          = filter (\<lambda>f. \<not> (\<exists>R \<in> set disclude. fst (regexp_test R f))) files"
    using assms
  proof (induction disclude arbitrary: files)
    case Nil
    show ?case by simp
  next
    case (Cons R disclude)
    then have R: "\<not> global R" "\<not> sticky R"
      and rest: "\<forall>R \<in> set disclude. \<not> global R \<and> \<not> sticky R"
      by simp_all
    show ?case
      by (simp add: filter_not_test_stateless [OF R] Cons.IH [OF rest] conj_commute)
  qed
  then show ?thesis by (simp add: apply_disclude_def)
qed

lemma not_matched_filter:
  assumes x: "x \<in> set (filter (\<lambda>f. \<not> (\<exists>r \<in> set ds. P r f)) xs)"
    and r: "r \<in> set ds"
  shows "\<not> P r x"
proof -
  from x have "\<not> (\<exists>r \<in> set ds. P r x)"
    unfolding set_filter mem_Collect_eq by (rule conjunct2)
  with r show ?thesis by (meson bexI)
qed

lemma filter_not_test_sublist:
  "set (fst (filter_not_test R files)) \<subseteq> set files
   \<and> (distinct files \<longrightarrow> distinct (fst (filter_not_test R files)))"
proof (induction files arbitrary: R)
  case Nil
  show ?case by simp
next
  case (Cons f files)
  obtain matched R' where t: "regexp_test R f = (matched, R')"
    by (cases "regexp_test R f")
  obtain kept R'' where k: "filter_not_test R' files = (kept, R'')"
    by (cases "filter_not_test R' files")
  from Cons.IH [of R'] k have "set kept \<subseteq> set files"
    and "distinct files \<longrightarrow> distinct kept"
    by simp_all
  then show ?case
    by (auto simp add: t k)
qed

lemma apply_disclude_sublist:
  "set (apply_disclude disclude files) \<subseteq> set files
   \<and> (distinct files \<longrightarrow> distinct (apply_disclude disclude files))"
  unfolding apply_disclude_def
proof (induction disclude arbitrary: files)
  case Nil
  show ?case by simp
next
  case (Cons R disclude)
  show ?case
    using Cons.IH [of "fst (filter_not_test R files)"] filter_not_test_sublist [of R files]
    by auto
qed

lemma flagList_concat:
  "flagList flags = concat (map (\<lambda>(flag, options). flag # options) (object_entries flags))"
proof -
  have "foldl (\<lambda>args (flag, options). args @ flag # options) acc entries
          = acc @ concat (map (\<lambda>(flag, options). flag # options) entries)"
    for acc and entries :: compiler_flags
    by (induction entries arbitrary: acc) (simp_all add: case_prod_beta)
  then show ?thesis by (simp add: flagList_def)
qed

lemma object_entries_insertion:
  assumes "list_all (\<lambda>(key, v). \<not> is_array_index key) object"
  shows "object_entries object = object"
proof -
  from assms have "filter (\<lambda>(key, v). is_array_index key) object = []"
    and "filter (\<lambda>(key, v). \<not> is_array_index key) object = object"
    by (induction object) auto
  then show ?thesis by (simp add: object_entries_def)
qed

lemma map_index: "map (\<lambda>i. f (xs ! i)) [0..<length xs] = map f xs"
  by (rule nth_equalityI) simp_all

subsubsection \<open>What the steps leave unchanged\<close>

lemma console_log_frame [simp]:
  "binaries (console_log line s) = binaries s"
  "sourcemaps (console_log line s) = sourcemaps s"
  "count (console_log line s) = count s"
  "failed (console_log line s) = failed s"
  "stderr (console_log line s) = stderr s"
  "disk (console_log line s) = disk s"
  "invoked (console_log line s) = invoked s"
  "loaded (console_log line s) = loaded s"
  "exited (console_log line s) = exited s"
  by (simp_all add: console_log_def)

lemma writeFile_frame [simp]:
  "count (writeFile E file i name contents s) = count s"
  "failed (writeFile E file i name contents s) = failed s"
  "stdout (writeFile E file i name contents s) = stdout s"
  "stderr (writeFile E file i name contents s) = stderr s"
  "invoked (writeFile E file i name contents s) = invoked s"
  "loaded (writeFile E file i name contents s) = loaded s"
  "exited (writeFile E file i name contents s) = exited s"
  by (simp_all add: writeFile_def Let_def)

lemma writes_frame [simp]:
  "count (fold (\<lambda>(name, contents). writeFile E file i name contents) writes s) = count s"
  "failed (fold (\<lambda>(name, contents). writeFile E file i name contents) writes s) = failed s"
  "stdout (fold (\<lambda>(name, contents). writeFile E file i name contents) writes s) = stdout s"
  "stderr (fold (\<lambda>(name, contents). writeFile E file i name contents) writes s) = stderr s"
  "invoked (fold (\<lambda>(name, contents). writeFile E file i name contents) writes s) = invoked s"
  "loaded (fold (\<lambda>(name, contents). writeFile E file i name contents) writes s) = loaded s"
  "exited (fold (\<lambda>(name, contents). writeFile E file i name contents) writes s) = exited s"
  by (induction writes arbitrary: s; simp add: case_prod_beta)+

lemma callback_frame [simp]:
  "binaries (callback E file i error s) = binaries s"
  "sourcemaps (callback E file i error s) = sourcemaps s"
  "disk (callback E file i error s) = disk s"
  "invoked (callback E file i error s) = invoked s"
  by (simp_all add: callback_def process_exit_def console_log_def console_error_def Let_def
      split: option.splits)

lemma callback_count: "count (callback E file i error s) = count s - 1"
  by (simp add: callback_def process_exit_def console_log_def console_error_def Let_def
      split: option.splits)

subsubsection \<open>The writes of a unit\<close>

lemma writeFile_binaries_other:
  "j \<noteq> i \<Longrightarrow> binaries (writeFile E file i name contents s) j = binaries s j"
  by (simp add: writeFile_def Let_def)

lemma writes_binaries_other:
  "j \<noteq> i \<Longrightarrow>
   binaries (fold (\<lambda>(name, contents). writeFile E file i name contents) writes s) j
     = binaries s j"
  by (induction writes arbitrary: s) (simp_all add: case_prod_beta writeFile_binaries_other)

lemma captured_binary_Nil [simp]: "captured_binary E [] = None"
  by (simp add: captured_binary_def)

lemma captured_binary_Cons:
  "captured_binary E ((name, contents) # writes) =
     (case captured_binary E writes of
        Some wasm \<Rightarrow> Some wasm
      | None \<Rightarrow> if extname E name = ''.wasm'' then Some contents else None)"
  by (simp add: captured_binary_def split: list.splits)

lemma captured_binary_None:
  "(\<forall>w \<in> set writes. extname E (fst w) \<noteq> ''.wasm'') \<Longrightarrow> captured_binary E writes = None"
  by (induction writes) (auto simp: captured_binary_Cons)

lemma writeFile_binaries_self:
  "binaries (writeFile E file i name contents s) i
     = (if extname E name = ''.wasm'' then Some contents else binaries s i)"
  by (simp add: writeFile_def Let_def)

lemma writes_binaries_self:
  "binaries (fold (\<lambda>(name, contents). writeFile E file i name contents) writes s) i
     = (case captured_binary E writes of Some wasm \<Rightarrow> Some wasm | None \<Rightarrow> binaries s i)"
proof (induction writes arbitrary: s)
  case Nil
  show ?case by simp
next
  case (Cons w writes)
  obtain name contents where w: "w = (name, contents)" by (cases w)
  show ?case
    by (simp add: w Cons.IH captured_binary_Cons writeFile_binaries_self split: option.splits)
qed

lemma writes_disk:
  "disk (fold (\<lambda>(name, contents). writeFile E file i name contents) writes s)
     = disk s
       @ map (\<lambda>(name, contents). (outfileName E file (extname E name), contents))
           (filter (\<lambda>(name, contents).
                      extname E name \<noteq> ''.wasm'' \<and> extname E name \<noteq> ''.map'') writes)"
proof (induction writes arbitrary: s)
  case Nil
  show ?case by simp
next
  case (Cons w writes)
  obtain name contents where w: "w = (name, contents)" by (cases w)
  have "disk (writeFile E file i name contents s)
          = (if extname E name \<noteq> ''.wasm'' \<and> extname E name \<noteq> ''.map''
             then disk s @ [(outfileName E file (extname E name), contents)] else disk s)"
    by (simp add: writeFile_def Let_def)
  then show ?case
    by (simp add: w Cons.IH)
qed

subsubsection \<open>The branches of the callback\<close>

lemma callback_error:
  "callback E file i (Some e) s =
     s\<lparr>stdout := stdout s @ [compile_error_message file], stderr := stderr s @ [e],
       count := count s - 1, exited := Some 1\<rparr>"
  by (simp add: callback_def process_exit_def console_log_def console_error_def)

lemma callback_no_binary:
  "binaries s i = None \<Longrightarrow>
   callback E file i None s =
     s\<lparr>stdout := stdout s @ [no_binary_message file], count := count s - 1,
       exited := Some 1\<rparr>"
  by (simp add: callback_def process_exit_def console_log_def)

lemma callback_ran:
  "binaries s i = Some wasm \<Longrightarrow>
   callback E file i None s =
     (if count s - 1 = 0 \<and> (failed s \<or> \<not> runner_pass E wasm)
      then s\<lparr>loaded := loaded s @ [wasm], count := count s - 1,
             failed := (failed s \<or> \<not> runner_pass E wasm), exited := Some 1\<rparr>
      else s\<lparr>loaded := loaded s @ [wasm], count := count s - 1,
             failed := (failed s \<or> \<not> runner_pass E wasm)\<rparr>)"
  by (auto simp add: callback_def process_exit_def Let_def)

lemma messages_differ: "compile_error_message file \<noteq> no_binary_message file'"
  by (simp add: compile_error_message_def no_binary_message_def)

subsubsection \<open>Units and runs\<close>

lemma compile_unit_exited:
  "exited s \<noteq> None \<Longrightarrow> compile_unit E files added flags i s = s"
  by (simp add: compile_unit_def)

lemma compile_unit_live:
  assumes "exited s = None" and "i < length files"
    and "asc_main E (compiler_args (files ! i) added fl) = (writes, error)"
  shows "compile_unit E files added fl i s
           = callback E (files ! i) i error
               (fold (\<lambda>(name, contents). writeFile E (files ! i) i name contents) writes
                  ((console_log (''Compiling: '' @ files ! i @ '' '' @ toString (i + 1)
                                   @ '' / '' @ toString (length files)) s)
                     \<lparr>invoked := invoked s @ [compiler_args (files ! i) added fl]\<rparr>))"
  using assms by (simp add: compile_unit_def Let_def console_log_def)

lemma compile_unit_count:
  assumes "exited s = None" and "i < length files"
  shows "count (compile_unit E files added fl i s) = count s - 1"
proof -
  obtain writes error where
    asc: "asc_main E (compiler_args (files ! i) added fl) = (writes, error)"
    by (cases "asc_main E (compiler_args (files ! i) added fl)")
  show ?thesis
    unfolding compile_unit_live [OF assms asc] callback_count by simp
qed

lemma run_units_exited:
  "exited s \<noteq> None \<Longrightarrow> run_units E files added flags order s = s"
  unfolding run_units_def
  by (induction order) (simp_all add: compile_unit_exited)

lemma run_units_Cons:
  "run_units E files added flags (i # order) s =
     run_units E files added flags order (compile_unit E files added flags i s)"
  by (simp add: run_units_def)

lemma run_units_Nil [simp]: "run_units E files added flags [] s = s"
  by (simp add: run_units_def)

lemma asp_run_Loaded:
  assumes "load_configuration required = Loaded configuration"
    and "resolve_files E (include_of configuration) (add_of configuration)
           (disclude_of configuration) = (files, added)"
  shows "asp_run E path required order =
     run_units E files (added @ [relativeEntryPath E]) (flagList (flags_of configuration))
       (order (length files))
       (start_state files
          (console_log (''including files '' @ join_comma (include_of configuration))
             (console_log (''[Log] using configuration '' @ path) initial_state)))"
  using assms by (simp add: asp_run_def Let_def)

lemma asp_deferred_Loaded:
  assumes "load_configuration required = Loaded configuration"
    and "resolve_files E (include_of configuration) (add_of configuration)
           (disclude_of configuration) = (files, added)"
  shows "asp_deferred E path required order =
     run_deferred E files (added @ [relativeEntryPath E]) (flagList (flags_of configuration))
       (order (length files))
       (start_state files
          (console_log (''including files '' @ join_comma (include_of configuration))
             (console_log (''[Log] using configuration '' @ path) initial_state)))"
  using assms by (simp add: asp_deferred_def Let_def)

lemma issue_unit_frame [simp]:
  "exited (issue_unit E files added fl i s) = exited s"
  "binaries (issue_unit E files added fl i s) = binaries s"
  "count (issue_unit E files added fl i s) = count s"
  "failed (issue_unit E files added fl i s) = failed s"
  by (simp_all add: issue_unit_def Let_def)

lemma issue_unit_invoked:
  "exited s = None \<Longrightarrow> i < length files \<Longrightarrow>
   invoked (issue_unit E files added fl i s)
     = invoked s @ [compiler_args (files ! i) added fl]"
  by (simp add: issue_unit_def Let_def)

lemma issue_units_invoked:
  assumes "exited s = None" and "\<forall>i \<in> set indices. i < length files"
  shows "invoked (fold (issue_unit E files added fl) indices s)
           = invoked s @ map (\<lambda>i. compiler_args (files ! i) added fl) indices"
  using assms
  by (induction indices arbitrary: s) (simp_all add: issue_unit_invoked)

lemma complete_unit_invoked [simp]:
  "invoked (complete_unit E files added fl i s) = invoked s"
  by (simp add: complete_unit_def Let_def split: prod.splits)

lemma complete_units_invoked [simp]:
  "invoked (fold (complete_unit E files added fl) order s) = invoked s"
  by (induction order arbitrary: s) simp_all

lemma run_deferred_invoked:
  assumes "exited s = None"
  shows "invoked (run_deferred E files added fl order s)
           = invoked s @ map (\<lambda>file. compiler_args file added fl) files"
proof -
  have "map (\<lambda>i. compiler_args (files ! i) added fl) [0..<length files]
          = map (\<lambda>file. compiler_args file added fl) files"
    by (rule map_index)
  with issue_units_invoked [OF assms, of "[0..<length files]" files E added fl]
  show ?thesis
    by (simp add: run_deferred_def)
qed

subsection \<open>The exit status of a run\<close>

lemma compile_unit_step:
  assumes live: "exited s = None" and i: "i < length files" and fresh: "binaries s i = None"
  shows "(case unit_outcome E (compiler_args (files ! i) added fl) of
            Ran pass \<Rightarrow>
              count (compile_unit E files added fl i s) = count s - 1
              \<and> failed (compile_unit E files added fl i s) = (failed s \<or> \<not> pass)
              \<and> exited (compile_unit E files added fl i s)
                  = (if count s - 1 = 0 \<and> (failed s \<or> \<not> pass) then Some 1 else None)
          | _ \<Rightarrow> exited (compile_unit E files added fl i s) = Some 1)
         \<and> (\<forall>j. j \<noteq> i \<longrightarrow> binaries (compile_unit E files added fl i s) j = binaries s j)"
proof -
  obtain writes error where
    asc: "asc_main E (compiler_args (files ! i) added fl) = (writes, error)"
    by (cases "asc_main E (compiler_args (files ! i) added fl)")
  let ?s1 = "(console_log (''Compiling: '' @ files ! i @ '' '' @ toString (i + 1)
                                   @ '' / '' @ toString (length files)) s)
                     \<lparr>invoked := invoked s @ [compiler_args (files ! i) added fl]\<rparr>"
  let ?s2 = "fold (\<lambda>(name, contents). writeFile E (files ! i) i name contents) writes ?s1"
  note cu = compile_unit_live [OF live i asc]
  have others: "\<forall>j. j \<noteq> i \<longrightarrow> binaries (compile_unit E files added fl i s) j = binaries s j"
    unfolding cu by (simp add: writes_binaries_other)
  have b: "binaries ?s2 i = captured_binary E writes"
    using fresh by (simp add: writes_binaries_self split: option.splits)
  have c: "count ?s2 = count s" "failed ?s2 = failed s"
    by simp_all
  show ?thesis
  proof (cases error)
    case (Some e)
    then have "unit_outcome E (compiler_args (files ! i) added fl) = CompileError"
      by (simp add: unit_outcome_def asc)
    moreover have "exited (compile_unit E files added fl i s) = Some 1"
      unfolding cu Some callback_error by simp
    ultimately show ?thesis using others by simp
  next
    case None
    show ?thesis
    proof (cases "captured_binary E writes")
      case n: None
      then have "unit_outcome E (compiler_args (files ! i) added fl) = MissingBinary"
        by (simp add: unit_outcome_def asc None)
      moreover from b n have b': "binaries ?s2 i = None" by simp
      have "exited (compile_unit E files added fl i s) = Some 1"
        unfolding cu None callback_no_binary [OF b'] by simp
      ultimately show ?thesis using others by simp
    next
      case (Some wasm)
      then have o: "unit_outcome E (compiler_args (files ! i) added fl)
                      = Ran (runner_pass E wasm)"
        by (simp add: unit_outcome_def asc None)
      from b Some have b': "binaries ?s2 i = Some wasm" by simp
      have "count (compile_unit E files added fl i s) = count s - 1"
        and "failed (compile_unit E files added fl i s) = (failed s \<or> \<not> runner_pass E wasm)"
        and "exited (compile_unit E files added fl i s)
              = (if count s - 1 = 0 \<and> (failed s \<or> \<not> runner_pass E wasm) then Some 1 else None)"
        unfolding cu None callback_ran [OF b'] c using live by simp_all
      then show ?thesis using others by (simp add: o)
    qed
  qed
qed

lemma exit_status_exited: "exited s = Some status \<Longrightarrow> exit_status s = status"
  by (simp add: exit_status_def)

lemma run_units_status:
  assumes "exited s = None" and "count s = int (length order)" and "distinct order"
    and "\<forall>i \<in> set order. i < length files \<and> binaries s i = None"
    and "order = [] \<longrightarrow> \<not> failed s"
  shows "exit_status (run_units E files added fl order s)
           = (if \<not> failed s
                 \<and> (\<forall>i \<in> set order.
                       unit_outcome E (compiler_args (files ! i) added fl) = Ran True)
              then 0 else 1)"
  using assms
proof (induction order arbitrary: s)
  case Nil
  then show ?case by (simp add: exit_status_def)
next
  case (Cons i order)
  let ?s' = "compile_unit E files added fl i s"
  from Cons.prems have live: "exited s = None" and i: "i < length files"
    and fresh: "binaries s i = None" and cnt: "count s = 1 + int (length order)"
    and notin: "i \<notin> set order" and d: "distinct order"
    and rest: "\<forall>j \<in> set order. j < length files \<and> binaries s j = None"
    by simp_all
  note step = compile_unit_step [OF live i fresh, of E added fl]
  show ?case
  proof (cases "unit_outcome E (compiler_args (files ! i) added fl)")
    case CompileError
    with step have e: "exited ?s' = Some 1" by simp
    then have "run_units E files added fl order ?s' = ?s'"
      by (simp add: run_units_exited)
    with e show ?thesis
      by (simp add: run_units_Cons exit_status_exited CompileError)
  next
    case MissingBinary
    with step have e: "exited ?s' = Some 1" by simp
    then have "run_units E files added fl order ?s' = ?s'"
      by (simp add: run_units_exited)
    with e show ?thesis
      by (simp add: run_units_Cons exit_status_exited MissingBinary)
  next
    case (Ran pass)
    with step have c: "count ?s' = count s - 1"
      and f: "failed ?s' = (failed s \<or> \<not> pass)"
      and e: "exited ?s' = (if count s - 1 = 0 \<and> (failed s \<or> \<not> pass) then Some 1 else None)"
      and o: "\<forall>j. j \<noteq> i \<longrightarrow> binaries ?s' j = binaries s j"
      by simp_all
    show ?thesis
    proof (cases "order = [] \<and> (failed s \<or> \<not> pass)")
      case True
      with e cnt have "exited ?s' = Some 1" by simp
      then have "exit_status (run_units E files added fl order ?s') = 1"
        by (simp add: run_units_exited exit_status_exited)
      with True show ?thesis
        by (auto simp add: run_units_Cons Ran)
    next
      case False
      with e cnt have live': "exited ?s' = None" by auto
      have cnt': "count ?s' = int (length order)" using c cnt by simp
      have rest': "\<forall>j \<in> set order. j < length files \<and> binaries ?s' j = None"
        using rest o notin by auto
      have last': "order = [] \<longrightarrow> \<not> failed ?s'" using False f by auto
      from Cons.IH [OF live' cnt' d rest' last']
      show ?thesis
        by (auto simp add: run_units_Cons f Ran)
    qed
  qed
qed

text \<open>
  Claim C1. A run over the \<open>N\<close> resolved spec files, the units completing once each in any
  order, ends with status 0 when every unit compiles, has its binary, runs and passes (so
  also when \<open>N = 0\<close>), and with status 1 otherwise, in particular when a unit reports
  \<open>pass = false\<close>. The counter \<open>count\<close> starts at \<open>N\<close> with \<open>failed\<close> unset, every completion
  of a unit takes one from it, and a completion that has run its unit exits with status 1
  exactly when it leaves the counter at zero and \<open>failed\<close> set.
\<close>

theorem pipeline_exit_status:
  assumes l: "load_configuration required = Loaded configuration"
    and r: "resolve_files E (include_of configuration) (add_of configuration)
              (disclude_of configuration) = (files, added)"
    and d: "distinct (order (length files))"
    and p: "set (order (length files)) = {..<length files}"
  shows "exit_status (asp_run E path required order)
           = (if \<forall>i<length files.
                   unit_outcome E (compiler_args (files ! i) (added @ [relativeEntryPath E])
                                     (flagList (flags_of configuration))) = Ran True
              then 0 else 1)
     \<and> count (start_state files s) = int (length files)
     \<and> \<not> failed (start_state files s)
     \<and> (exited t = None \<and> k < length files \<longrightarrow>
           count (compile_unit E files addedTestEntryFiles fl k t) = count t - 1)
     \<and> (binaries t k = Some wasm \<longrightarrow>
           count (callback E file k None t) = count t - 1
           \<and> failed (callback E file k None t) = (failed t \<or> \<not> runner_pass E wasm)
           \<and> exited (callback E file k None t)
               = (if count (callback E file k None t) = 0 \<and> failed (callback E file k None t)
                  then Some 1 else exited t))"
proof (intro conjI impI)
  let ?s = "start_state files
          (console_log (''including files '' @ join_comma (include_of configuration))
             (console_log (''[Log] using configuration '' @ path) initial_state))"
  have live: "exited ?s = None" and cnt: "count ?s = int (length (order (length files)))"
    and nf: "order (length files) = [] \<longrightarrow> \<not> failed ?s"
    and fresh: "\<forall>i \<in> set (order (length files)). i < length files \<and> binaries ?s i = None"
    using p distinct_card [OF d]
    by (simp_all add: start_state_def initial_state_def)
  have f: "\<not> failed ?s" by (simp add: start_state_def)
  show "exit_status (asp_run E path required order)
           = (if \<forall>i<length files.
                   unit_outcome E (compiler_args (files ! i) (added @ [relativeEntryPath E])
                                     (flagList (flags_of configuration))) = Ran True
              then 0 else 1)"
    unfolding asp_run_Loaded [OF l r] run_units_status [OF live cnt d fresh nf]
    using f p by simp
next
  show "count (start_state files s) = int (length files)"
    and "\<not> failed (start_state files s)"
    by (simp_all add: start_state_def)
next
  assume "exited t = None \<and> k < length files"
  then show "count (compile_unit E files addedTestEntryFiles fl k t) = count t - 1"
    by (simp add: compile_unit_count)
next
  assume b: "binaries t k = Some wasm"
  show "count (callback E file k None t) = count t - 1"
    by (rule callback_count)
  show "failed (callback E file k None t) = (failed t \<or> \<not> runner_pass E wasm)"
    by (simp add: callback_ran [OF b])
  show "exited (callback E file k None t)
               = (if count (callback E file k None t) = 0 \<and> failed (callback E file k None t)
                  then Some 1 else exited t)"
    by (auto simp add: callback_ran [OF b])
qed

theorem pipeline_exit_status_witness:
  "exit_status (asp_run sample_env ''as-pect.config.js''
                  (Inr (JObject (empty_object\<lparr>c_include := Some [''t/*.spec.ts''],
                                               c_disclude := Some [literal_regexp ''skip'' False]\<rparr>)))
                  (\<lambda>n. rev [0..<n])) = 1
   \<and> exit_status (asp_run sample_env ''as-pect.config.js''
                  (Inr (JObject (empty_object\<lparr>c_include := Some [''t/none.ts'']\<rparr>)))
                  (\<lambda>n. [0..<n])) = 0"
proof -
  let ?c = "JObject (empty_object\<lparr>c_include := Some [''t/*.spec.ts''],
                                   c_disclude := Some [literal_regexp ''skip'' False]\<rparr>)"
  let ?z = "JObject (empty_object\<lparr>c_include := Some [''t/none.ts'']\<rparr>)"
  have l: "load_configuration (Inr ?c) = Loaded ?c"
    and lz: "load_configuration (Inr ?z) = Loaded ?z"
    by (simp_all add: load_configuration_def)
  have r: "resolve_files sample_env (include_of ?c) (add_of ?c) (disclude_of ?c)
             = ([''t/a.spec.ts'', ''t/b.spec.ts''], [])"
    by code_simp
  have rz: "resolve_files sample_env (include_of ?z) (add_of ?z) (disclude_of ?z) = ([], [])"
    by code_simp
  have d: "distinct ((\<lambda>n. rev [0..<n]) (length [''t/a.spec.ts'', ''t/b.spec.ts'']))"
    and p: "set ((\<lambda>n. rev [0..<n]) (length [''t/a.spec.ts'', ''t/b.spec.ts'']))
              = {..<length [''t/a.spec.ts'', ''t/b.spec.ts'']}"
    by (auto simp add: less_Suc_eq)
  have dz: "distinct ((\<lambda>n. [0..<n]) (length ([]::string list)))"
    and pz: "set ((\<lambda>n. [0..<n]) (length ([]::string list))) = {..<length ([]::string list)}"
    by simp_all
  have b: "unit_outcome sample_env
             (compiler_args ([''t/a.spec.ts'', ''t/b.spec.ts''] ! 1)
                ([] @ [relativeEntryPath sample_env]) (flagList (flags_of ?c))) = Ran False"
    by code_simp
  have "exit_status (asp_run sample_env ''as-pect.config.js'' (Inr ?c) (\<lambda>n. rev [0..<n])) = 1"
    using pipeline_exit_status [where order = "\<lambda>n. rev [0..<n]" and path = "''as-pect.config.js''",
        OF l r d p, THEN conjunct1] b
    by (auto simp del: One_nat_def)
  moreover
  have "exit_status (asp_run sample_env ''as-pect.config.js'' (Inr ?z) (\<lambda>n. [0..<n])) = 0"
    using pipeline_exit_status [where order = "\<lambda>n. [0..<n]" and path = "''as-pect.config.js''",
        OF lz rz dz pz, THEN conjunct1]
    by simp
  ultimately show ?thesis by (rule conjI)
qed

subsection \<open>A compiler that completes after it has returned\<close>

text \<open>
  Nothing reads the console or the record of the calls of the compiler, so a run with
  deferred completions ends as the run in which each unit begins when it completes, but
  for these two fields: in particular with the same exit status.
\<close>

lemma compile_unit_split:
  "compile_unit E files added fl i s
     = complete_unit E files added fl i (issue_unit E files added fl i s)"
proof (cases "exited s \<noteq> None \<or> \<not> i < length files")
  case True
  then show ?thesis
    by (auto simp add: compile_unit_def complete_unit_def issue_unit_def)
next
  case False
  then have "exited (issue_unit E files added fl i s) = None" by simp
  with False show ?thesis
    by (simp add: compile_unit_def complete_unit_def Let_def)
      (simp add: issue_unit_def Let_def)
qed

lemma console_trivial: "\<exists>out inv. (s::state) = s\<lparr>stdout := out, invoked := inv\<rparr>"
  by (rule exI [of _ "stdout s"], rule exI [of _ "invoked s"]) simp

lemma issue_unit_console:
  "\<exists>out inv. issue_unit E files added fl i s = s\<lparr>stdout := out, invoked := inv\<rparr>"
proof (cases "exited s \<noteq> None \<or> \<not> i < length files")
  case True
  then have "issue_unit E files added fl i s = s\<lparr>stdout := stdout s, invoked := invoked s\<rparr>"
    by (simp add: issue_unit_def)
  then show ?thesis by blast
next
  case False
  then have "issue_unit E files added fl i s
               = s\<lparr>stdout := stdout s @ [''Compiling: '' @ files ! i @ '' '' @ toString (i + 1)
                                           @ '' / '' @ toString (length files)],
                    invoked := invoked s @ [compiler_args (files ! i) added fl]\<rparr>"
    by (simp add: issue_unit_def Let_def console_log_def)
  then show ?thesis by blast
qed

lemma issue_units_console:
  "\<exists>out inv. fold (issue_unit E files added fl) indices s = s\<lparr>stdout := out, invoked := inv\<rparr>"
proof (induction indices arbitrary: s)
  case Nil
  show ?case by (simp add: console_trivial)
next
  case (Cons i indices)
  obtain out inv where "issue_unit E files added fl i s = s\<lparr>stdout := out, invoked := inv\<rparr>"
    using issue_unit_console by blast
  moreover obtain out' inv' where
    "fold (issue_unit E files added fl) indices (s\<lparr>stdout := out, invoked := inv\<rparr>)
       = s\<lparr>stdout := out, invoked := inv\<rparr>\<lparr>stdout := out', invoked := inv'\<rparr>"
    using Cons.IH by blast
  ultimately have "fold (issue_unit E files added fl) (i # indices) s
                     = s\<lparr>stdout := out', invoked := inv'\<rparr>"
    by simp
  then show ?case by blast
qed

lemma writeFile_console:
  "writeFile E file i name contents (s\<lparr>stdout := a, invoked := b\<rparr>)
     = (writeFile E file i name contents s)\<lparr>stdout := a, invoked := b\<rparr>"
  by (simp add: writeFile_def Let_def)

lemma writes_console:
  "fold (\<lambda>(name, contents). writeFile E file i name contents) writes
     (s\<lparr>stdout := a, invoked := b\<rparr>)
   = (fold (\<lambda>(name, contents). writeFile E file i name contents) writes s)
       \<lparr>stdout := a, invoked := b\<rparr>"
  by (induction writes arbitrary: s) (simp_all add: case_prod_beta writeFile_console)

lemma callback_console:
  "\<exists>out. callback E file i error (s\<lparr>stdout := a, invoked := b\<rparr>)
        = (callback E file i error s)\<lparr>stdout := out, invoked := b\<rparr>"
proof (cases error)
  case (Some e)
  have "callback E file i (Some e) (s\<lparr>stdout := a, invoked := b\<rparr>)
          = (callback E file i (Some e) s)
              \<lparr>stdout := a @ [compile_error_message file], invoked := b\<rparr>"
    by (simp add: callback_error)
  then show ?thesis unfolding Some by blast
next
  case None
  show ?thesis
  proof (cases "binaries s i")
    case n: None
    then have n': "binaries (s\<lparr>stdout := a, invoked := b\<rparr>) i = None" by simp
    have "callback E file i None (s\<lparr>stdout := a, invoked := b\<rparr>)
          = (callback E file i None s)
              \<lparr>stdout := a @ [no_binary_message file], invoked := b\<rparr>"
      by (simp add: callback_no_binary [OF n] callback_no_binary [OF n'])
    then show ?thesis unfolding None by blast
  next
    case (Some wasm)
    then have w': "binaries (s\<lparr>stdout := a, invoked := b\<rparr>) i = Some wasm" by simp
    have "callback E file i None (s\<lparr>stdout := a, invoked := b\<rparr>)
          = (callback E file i None s)\<lparr>stdout := a, invoked := b\<rparr>"
      by (auto simp add: callback_ran [OF Some] callback_ran [OF w'])
    then show ?thesis unfolding None by blast
  qed
qed

lemma complete_unit_console:
  "\<exists>out. complete_unit E files added fl i (s\<lparr>stdout := a, invoked := b\<rparr>)
        = (complete_unit E files added fl i s)\<lparr>stdout := out, invoked := b\<rparr>"
proof (cases "exited s \<noteq> None \<or> \<not> i < length files")
  case True
  then have "complete_unit E files added fl i (s\<lparr>stdout := a, invoked := b\<rparr>)
               = (complete_unit E files added fl i s)\<lparr>stdout := a, invoked := b\<rparr>"
    by (simp add: complete_unit_def)
  then show ?thesis by blast
next
  case False
  obtain writes error where
    asc: "asc_main E (compiler_args (files ! i) added fl) = (writes, error)"
    by (cases "asc_main E (compiler_args (files ! i) added fl)")
  let ?w = "fold (\<lambda>(name, contents). writeFile E (files ! i) i name contents) writes s"
  have l: "complete_unit E files added fl i s = callback E (files ! i) i error ?w"
    using False asc by (simp add: complete_unit_def Let_def)
  have r: "complete_unit E files added fl i (s\<lparr>stdout := a, invoked := b\<rparr>)
             = callback E (files ! i) i error (?w\<lparr>stdout := a, invoked := b\<rparr>)"
    using False asc by (simp add: complete_unit_def Let_def writes_console)
  show ?thesis
    unfolding l r by (rule callback_console)
qed

lemma deferred_units:
  "\<exists>out inv. fold (complete_unit E files added fl) order (s\<lparr>stdout := a, invoked := b\<rparr>)
            = (run_units E files added fl order s)\<lparr>stdout := out, invoked := inv\<rparr>"
proof (induction order arbitrary: s a b)
  case Nil
  show ?case by (intro exI [of _ a] exI [of _ b]) simp
next
  case (Cons i order)
  obtain o1 where c1: "complete_unit E files added fl i (s\<lparr>stdout := a, invoked := b\<rparr>)
        = (complete_unit E files added fl i s)\<lparr>stdout := o1, invoked := b\<rparr>"
    using complete_unit_console by blast
  obtain o2 v2 where "issue_unit E files added fl i s = s\<lparr>stdout := o2, invoked := v2\<rparr>"
    using issue_unit_console by blast
  moreover obtain o3 where "complete_unit E files added fl i (s\<lparr>stdout := o2, invoked := v2\<rparr>)
        = (complete_unit E files added fl i s)\<lparr>stdout := o3, invoked := v2\<rparr>"
    using complete_unit_console by blast
  ultimately have c2: "compile_unit E files added fl i s
        = (complete_unit E files added fl i s)\<lparr>stdout := o3, invoked := v2\<rparr>"
    by (simp add: compile_unit_split)
  have "(complete_unit E files added fl i s)\<lparr>stdout := o1, invoked := b\<rparr>
          = (compile_unit E files added fl i s)\<lparr>stdout := o1, invoked := b\<rparr>"
    unfolding c2 by simp
  with Cons.IH [where s = "compile_unit E files added fl i s" and a = o1 and b = b] c1
  show ?case by (simp add: run_units_Cons)
qed

lemma run_deferred_units:
  "\<exists>out inv. run_deferred E files added fl order s
            = (run_units E files added fl order s)\<lparr>stdout := out, invoked := inv\<rparr>"
proof -
  obtain out inv where
    "fold (issue_unit E files added fl) [0..<length files] s = s\<lparr>stdout := out, invoked := inv\<rparr>"
    using issue_units_console by blast
  then show ?thesis
    unfolding run_deferred_def using deferred_units by simp
qed

lemma asp_deferred_asp_run:
  "\<exists>out inv. asp_deferred E path required order
            = (asp_run E path required order)\<lparr>stdout := out, invoked := inv\<rparr>"
proof (cases "load_configuration required")
  case (Loaded configuration)
  obtain files added where r: "resolve_files E (include_of configuration)
      (add_of configuration) (disclude_of configuration) = (files, added)"
    by (cases "resolve_files E (include_of configuration)
      (add_of configuration) (disclude_of configuration)")
  show ?thesis
    unfolding asp_deferred_Loaded [OF Loaded r] asp_run_Loaded [OF Loaded r]
    by (rule run_deferred_units)
next
  case (ProblemLoading ex)
  then have "asp_deferred E path required order
               = (asp_run E path required order)
                   \<lparr>stdout := stdout (asp_run E path required order),
                     invoked := invoked (asp_run E path required order)\<rparr>"
    by (simp add: asp_deferred_def asp_run_def)
  then show ?thesis by blast
next
  case NullOrNotObject
  then have "asp_deferred E path required order
               = (asp_run E path required order)
                   \<lparr>stdout := stdout (asp_run E path required order),
                     invoked := invoked (asp_run E path required order)\<rparr>"
    by (simp add: asp_deferred_def asp_run_def)
  then show ?thesis by blast
qed

lemma asp_deferred_exit_status:
  "exit_status (asp_deferred E path required order)
     = exit_status (asp_run E path required order)"
proof -
  obtain out inv where "asp_deferred E path required order
            = (asp_run E path required order)\<lparr>stdout := out, invoked := inv\<rparr>"
    using asp_deferred_asp_run by blast
  then show ?thesis by (simp add: exit_status_def)
qed

subsection \<open>The fatal completions\<close>

text \<open>
  Claim C2. When the compilation of a spec file completes with an error, or with no error
  but with no binary captured under the index of the file, the callback logs a diagnostic
  and calls \<open>process.exit(1)\<close>: the runner is not called, nothing is written, and the
  units that have not completed change nothing any more. The diagnostic of the first
  condition is not the diagnostic of the second.
\<close>

theorem fatal_completion:
  assumes "error \<noteq> None \<or> binaries s i = None"
  shows "exited (callback E file i error s) = Some 1
     \<and> stdout (callback E file i error s)
         = stdout s @ [if error \<noteq> None then compile_error_message file
                       else no_binary_message file]
     \<and> loaded (callback E file i error s) = loaded s
     \<and> disk (callback E file i error s) = disk s
     \<and> run_units E files added flags rest (callback E file i error s)
         = callback E file i error s
     \<and> compile_error_message file \<noteq> no_binary_message file"
proof (cases error)
  case None
  with assms have b: "binaries s i = None" by simp
  have "exited (callback E file i None s) \<noteq> None"
    by (simp add: callback_no_binary [OF b])
  then have "run_units E files added flags rest (callback E file i None s)
               = callback E file i None s"
    by (rule run_units_exited)
  then show ?thesis
    by (simp add: None callback_no_binary [OF b] messages_differ)
next
  case (Some e)
  have "exited (callback E file i (Some e) s) \<noteq> None"
    by (simp add: callback_error)
  then have "run_units E files added flags rest (callback E file i (Some e) s)
               = callback E file i (Some e) s"
    by (rule run_units_exited)
  then show ?thesis
    by (simp add: Some callback_error messages_differ)
qed

theorem fatal_completion_witness:
  "exited (callback sample_env ''t/bad.spec.ts'' 0 (Some ''ERROR TS2322: type mismatch'')
             initial_state) = Some 1
   \<and> stdout (callback sample_env ''t/bad.spec.ts'' 0 (Some ''ERROR TS2322: type mismatch'')
               initial_state)
       = [''There was a compilation error when trying to create the wasm binary for file: t/bad.spec.ts.'']
   \<and> exited (callback sample_env ''t/a.spec.ts'' 0 None initial_state) = Some 1
   \<and> stdout (callback sample_env ''t/a.spec.ts'' 0 None initial_state)
       = [''There was no output binary file: t/a.spec.ts. Did you forget to emit the binary?'']"
  using fatal_completion [of "Some ''ERROR TS2322: type mismatch''" initial_state 0
      sample_env "''t/bad.spec.ts''"]
    fatal_completion [of None initial_state 0 sample_env "''t/a.spec.ts''"]
  by (simp add: initial_state_def compile_error_message_def no_binary_message_def)

subsection \<open>The resolved files\<close>

text \<open>
  The files resolved, whatever the exclude expressions are: \<open>testEntryFiles\<close> has no
  duplicate and only matches of the include patterns, and \<open>addedTestEntryFiles\<close> is the
  concatenation of the matches of the add patterns, neither filtered nor deduplicated.
\<close>

lemma resolve_files_general:
  "distinct (fst (resolve_files E incl add disclude))
   \<and> set (fst (resolve_files E incl add disclude)) \<subseteq> set (concat (map (glob_sync E) incl))
   \<and> snd (resolve_files E incl add disclude) = concat (map (glob_sync E) add)"
  using apply_disclude_sublist [of disclude "uniq (push_globs E incl)"]
  by (auto simp add: resolve_files_def Let_def distinct_uniq set_uniq push_globs_concat)

text \<open>
  With exclude expressions that have neither the flag \<open>g\<close> nor the flag \<open>y\<close>,
  \<open>testEntryFiles\<close> is the concatenation of the matches of the include patterns,
  deduplicated preserving the first occurrence, without the paths that some exclude
  expression matches.
\<close>

lemma resolve_files_stateless:
  assumes "\<forall>R \<in> set disclude. \<not> global R \<and> \<not> sticky R"
  shows "resolve_files E incl add disclude =
     (filter (\<lambda>f. \<not> (\<exists>R \<in> set disclude. fst (regexp_test R f)))
        (first_occurrences (concat (map (glob_sync E) incl))),
      concat (map (glob_sync E) add))"
  unfolding resolve_files_def Let_def push_globs_concat apply_disclude_stateless [OF assms]
    uniq_first_occurrences ..

text \<open>
  Claim C3 says that \<open>testEntryFiles\<close> has no path that an exclude expression matches,
  for every exclude expression. The code, for the include pattern \<open>t/*.spec.ts\<close> and the
  exclude expression \<open>/skip/g\<close>, keeps the path \<open>t/skip2.spec.ts\<close>, which the expression
  matches: the test of \<open>t/skip.spec.ts\<close> before it leaves \<open>lastIndex\<close> at 6, where the
  search in \<open>t/skip2.spec.ts\<close> then starts. With \<open>/skip/\<close> the path is removed. The list
  of the add patterns is the same in both runs.
\<close>

theorem resolve_files_global_regexp:
  "resolve_files sample_env [''t/*.spec.ts''] [''t/*.include.ts'']
     [literal_regexp ''skip'' True]
     = ([''t/a.spec.ts'', ''t/b.spec.ts'', ''t/skip2.spec.ts''],
        [''t/a.include.ts'', ''t/skip.include.ts''])
   \<and> fst (regexp_test (literal_regexp ''skip'' True) ''t/skip2.spec.ts'')
   \<and> resolve_files sample_env [''t/*.spec.ts''] [''t/*.include.ts'']
     [literal_regexp ''skip'' False]
     = ([''t/a.spec.ts'', ''t/b.spec.ts''], [''t/a.include.ts'', ''t/skip.include.ts''])"
  by code_simp

subsection \<open>The arguments of the compiler\<close>

lemma compile_unit_invoked:
  "exited s = None \<Longrightarrow> i < length files \<Longrightarrow>
   invoked (compile_unit E files added flags i s)
     = invoked s @ [compiler_args (files ! i) added flags]"
  by (simp add: compile_unit_def Let_def console_log_def split: prod.splits)

lemma started_all: "\<forall>x \<in> set xs. ok x \<Longrightarrow> started ok xs = xs"
  by (induction xs) (simp_all add: started_def)

lemma run_units_invoked:
  assumes "exited s = None" and "count s = int (length order)" and "distinct order"
    and "\<forall>i \<in> set order. i < length files \<and> binaries s i = None"
  shows "invoked (run_units E files added fl order s)
           = invoked s
             @ map (\<lambda>i. compiler_args (files ! i) added fl)
                 (started (\<lambda>i. is_ran (unit_outcome E (compiler_args (files ! i) added fl)))
                    order)"
  using assms
proof (induction order arbitrary: s)
  case Nil
  show ?case by (simp add: started_def)
next
  case (Cons i order)
  let ?s' = "compile_unit E files added fl i s"
  from Cons.prems have live: "exited s = None" and i: "i < length files"
    and fresh: "binaries s i = None" and cnt: "count s = 1 + int (length order)"
    and notin: "i \<notin> set order" and d: "distinct order"
    and rest: "\<forall>j \<in> set order. j < length files \<and> binaries s j = None"
    by simp_all
  note step = compile_unit_step [OF live i fresh, of E added fl]
  note inv = compile_unit_invoked [OF live i, of E added fl]
  show ?case
  proof (cases "is_ran (unit_outcome E (compiler_args (files ! i) added fl)) \<and> order \<noteq> []")
    case False
    have "run_units E files added fl order ?s' = ?s'"
    proof (cases "order = []")
      case True
      then show ?thesis by simp
    next
      case ne: False
      with False have "\<not> is_ran (unit_outcome E (compiler_args (files ! i) added fl))"
        by simp
      with step have "exited ?s' = Some 1"
        by (cases "unit_outcome E (compiler_args (files ! i) added fl)") simp_all
      then show ?thesis by (simp add: run_units_exited)
    qed
    with False show ?thesis
      by (auto simp add: run_units_Cons inv started_def)
  next
    case True
    then obtain pass where o: "unit_outcome E (compiler_args (files ! i) added fl) = Ran pass"
      by (cases "unit_outcome E (compiler_args (files ! i) added fl)") simp_all
    with step have c: "count ?s' = count s - 1"
      and e: "exited ?s' = (if count s - 1 = 0 \<and> (failed s \<or> \<not> pass) then Some 1 else None)"
      and others: "\<forall>j. j \<noteq> i \<longrightarrow> binaries ?s' j = binaries s j"
      by simp_all
    from True cnt e have live': "exited ?s' = None" by simp
    have cnt': "count ?s' = int (length order)" using c cnt by simp
    have rest': "\<forall>j \<in> set order. j < length files \<and> binaries ?s' j = None"
      using rest others notin by auto
    from Cons.IH [OF live' cnt' d rest'] True
    show ?thesis
      by (simp add: run_units_Cons inv started_def)
  qed
qed

lemma start_state_fresh:
  "exited (start_state files
          (console_log l2 (console_log l1 initial_state))) = None"
  "count (start_state files
          (console_log l2 (console_log l1 initial_state))) = int (length files)"
  "binaries (start_state files
          (console_log l2 (console_log l1 initial_state))) i = None"
  "invoked (start_state files
          (console_log l2 (console_log l1 initial_state))) = []"
  by (simp_all add: start_state_def initial_state_def)

lemma asp_run_invoked:
  assumes l: "load_configuration required = Loaded configuration"
    and r: "resolve_files E (include_of configuration) (add_of configuration)
              (disclude_of configuration) = (files, added)"
  shows "invoked (asp_run E path required (\<lambda>n. [0..<n]))
         = map (\<lambda>i. compiler_args (files ! i) (added @ [relativeEntryPath E])
                      (flagList (flags_of configuration)))
             (started
                (\<lambda>i. is_ran (unit_outcome E
                                (compiler_args (files ! i) (added @ [relativeEntryPath E])
                                   (flagList (flags_of configuration)))))
                [0..<length files])"
  unfolding asp_run_Loaded [OF l r]
  by (subst run_units_invoked) (simp_all add: start_state_fresh)

text \<open>
  Claim C4, as the code has it. The argument list given to \<open>asc.main\<close> for a spec file is
  the file, then the files of the add patterns in order, then the entry of the framework
  (\<open>relativeEntryPath\<close>), then the flags flattened: for each entry of the flag object, in
  the order of \<open>Object.entries\<close>, the flag and then its arguments in order. That order is
  the order of insertion when no flag is named by an array index; a flag so named comes
  before the others. With a compiler that completes before it returns, the compiler is
  called with this list for the resolved files in order, up to the first whose completion
  is fatal, so for every resolved file when none is; with a compiler that completes after
  it has returned, for every resolved file in order.
\<close>

theorem compiler_invocation:
  assumes l: "load_configuration required = Loaded configuration"
    and r: "resolve_files E (include_of configuration) (add_of configuration)
              (disclude_of configuration) = (files, added)"
  shows "compiler_args file (addedTestEntryFiles @ [relativeEntryPath E]) (flagList flags)
           = [file] @ addedTestEntryFiles @ [relativeEntryPath E]
               @ concat (map (\<lambda>(flag, options). flag # options) (object_entries flags))
     \<and> (list_all (\<lambda>(flag, options). \<not> is_array_index flag) flags
          \<longrightarrow> object_entries flags = flags)
     \<and> invoked (asp_run E path required (\<lambda>n. [0..<n]))
         = map (\<lambda>i. [files ! i] @ added @ [relativeEntryPath E]
                      @ concat (map (\<lambda>(flag, options). flag # options)
                                  (object_entries (flags_of configuration))))
             (started
                (\<lambda>i. is_ran (unit_outcome E
                                (compiler_args (files ! i) (added @ [relativeEntryPath E])
                                   (flagList (flags_of configuration)))))
                [0..<length files])
     \<and> ((\<forall>i<length files.
            is_ran (unit_outcome E
                      (compiler_args (files ! i) (added @ [relativeEntryPath E])
                         (flagList (flags_of configuration)))))
          \<longrightarrow> invoked (asp_run E path required (\<lambda>n. [0..<n]))
                = map (\<lambda>file. [file] @ added @ [relativeEntryPath E]
                                @ concat (map (\<lambda>(flag, options). flag # options)
                                            (object_entries (flags_of configuration))))
                    files)
     \<and> invoked (asp_deferred E path required order)
         = map (\<lambda>file. [file] @ added @ [relativeEntryPath E]
                         @ concat (map (\<lambda>(flag, options). flag # options)
                                     (object_entries (flags_of configuration))))
             files"
proof (intro conjI impI)
  let ?s = "start_state files
          (console_log (''including files '' @ join_comma (include_of configuration))
             (console_log (''[Log] using configuration '' @ path) initial_state))"
  let ?ok = "\<lambda>i. is_ran (unit_outcome E
                                (compiler_args (files ! i) (added @ [relativeEntryPath E])
                                   (flagList (flags_of configuration))))"
  have args: "compiler_args f (added @ [relativeEntryPath E]) (flagList (flags_of configuration))
                = [f] @ added @ [relativeEntryPath E]
                    @ concat (map (\<lambda>(flag, options). flag # options)
                                (object_entries (flags_of configuration)))" for f
    by (simp add: compiler_args_def flagList_concat)
  show "compiler_args file (addedTestEntryFiles @ [relativeEntryPath E]) (flagList flags)
           = [file] @ addedTestEntryFiles @ [relativeEntryPath E]
               @ concat (map (\<lambda>(flag, options). flag # options) (object_entries flags))"
    by (simp add: compiler_args_def flagList_concat)
  show "object_entries flags = flags"
    if "list_all (\<lambda>(flag, options). \<not> is_array_index flag) flags"
    using that by (rule object_entries_insertion)
  have run: "invoked (asp_run E path required (\<lambda>n. [0..<n]))
         = map (\<lambda>i. compiler_args (files ! i) (added @ [relativeEntryPath E])
                      (flagList (flags_of configuration)))
             (started ?ok [0..<length files])"
    by (rule asp_run_invoked [OF l r])
  then show "invoked (asp_run E path required (\<lambda>n. [0..<n]))
         = map (\<lambda>i. [files ! i] @ added @ [relativeEntryPath E]
                      @ concat (map (\<lambda>(flag, options). flag # options)
                                  (object_entries (flags_of configuration))))
             (started ?ok [0..<length files])"
    by (simp only: args)
  show "invoked (asp_run E path required (\<lambda>n. [0..<n]))
                = map (\<lambda>file. [file] @ added @ [relativeEntryPath E]
                                @ concat (map (\<lambda>(flag, options). flag # options)
                                            (object_entries (flags_of configuration))))
                    files"
    if all: "\<forall>i<length files. ?ok i"
  proof -
    from all have "started ?ok [0..<length files] = [0..<length files]"
      by (intro started_all) simp
    moreover have "map (\<lambda>i. compiler_args (files ! i) (added @ [relativeEntryPath E])
                      (flagList (flags_of configuration))) [0..<length files]
          = map (\<lambda>file. compiler_args file (added @ [relativeEntryPath E])
                      (flagList (flags_of configuration))) files"
      by (rule map_index)
    ultimately show ?thesis
      unfolding run by (simp only: args)
  qed
  have "invoked (asp_deferred E path required order)
          = map (\<lambda>file. compiler_args file (added @ [relativeEntryPath E])
                      (flagList (flags_of configuration))) files"
    unfolding asp_deferred_Loaded [OF l r]
    by (subst run_deferred_invoked) (simp_all add: start_state_fresh)
  then show "invoked (asp_deferred E path required order)
         = map (\<lambda>file. [file] @ added @ [relativeEntryPath E]
                         @ concat (map (\<lambda>(flag, options). flag # options)
                                     (object_entries (flags_of configuration))))
             files"
    by (simp only: args)
qed

theorem compiler_invocation_counterexample:
  "flagList [(''--binaryFile'', [''output.wasm'']), (''7'', [])]
     = [''7'', ''--binaryFile'', ''output.wasm'']
   \<and> flagList [(''--binaryFile'', [''output.wasm'']), (''7'', [])]
       \<noteq> concat (map (\<lambda>(flag, options). flag # options)
                    [(''--binaryFile'', [''output.wasm'']), (''7'', [])])
   \<and> invoked (asp_run sample_env ''as-pect.config.js''
                (Inr (JObject (empty_object
                   \<lparr>c_include := Some [''t/a.*''], c_add := Some [],
                     c_flags := Some [(''--binaryFile'', [''output.wasm'']), (''7'', [])]\<rparr>)))
                (\<lambda>n. [0..<n]))
       = [[''t/a.include.ts'', ''node_modules/as-pect/assembly/index.ts'',
           ''7'', ''--binaryFile'', ''output.wasm''],
          [''t/a.spec.ts'', ''node_modules/as-pect/assembly/index.ts'',
           ''7'', ''--binaryFile'', ''output.wasm'']]"
proof -
  let ?c = "JObject (empty_object
                   \<lparr>c_include := Some [''t/a.*''], c_add := Some [],
                     c_flags := Some [(''--binaryFile'', [''output.wasm'']), (''7'', [])]\<rparr>)"
  let ?files = "[''t/a.include.ts'', ''t/a.spec.ts'']"
  have fl: "flagList [(''--binaryFile'', [''output.wasm'']), (''7'', [])]
              = [''7'', ''--binaryFile'', ''output.wasm'']"
    by (simp add: flagList_def object_entries_def is_array_index_def index_value_def)
  have l: "load_configuration (Inr ?c) = Loaded ?c"
    by (simp add: load_configuration_def)
  have r: "resolve_files sample_env (include_of ?c) (add_of ?c) (disclude_of ?c)
             = (?files, [])"
    by code_simp
  have f: "flags_of ?c = [(''--binaryFile'', [''output.wasm'']), (''7'', [])]"
    by (simp add: flags_of_def empty_object_def)
  have e: "relativeEntryPath sample_env = ''node_modules/as-pect/assembly/index.ts''"
    by (simp add: sample_env_def)
  have a: "compiler_args (?files ! 0) ([] @ [relativeEntryPath sample_env])
             (flagList (flags_of ?c))
           = [''t/a.include.ts'', ''node_modules/as-pect/assembly/index.ts'',
              ''7'', ''--binaryFile'', ''output.wasm'']"
    "compiler_args (?files ! 1) ([] @ [relativeEntryPath sample_env])
             (flagList (flags_of ?c))
           = [''t/a.spec.ts'', ''node_modules/as-pect/assembly/index.ts'',
              ''7'', ''--binaryFile'', ''output.wasm'']"
    unfolding f fl e by (simp_all add: compiler_args_def)
  have o: "is_ran (unit_outcome sample_env
                     [''t/a.include.ts'', ''node_modules/as-pect/assembly/index.ts'',
                      ''7'', ''--binaryFile'', ''output.wasm''])"
    "is_ran (unit_outcome sample_env
                     [''t/a.spec.ts'', ''node_modules/as-pect/assembly/index.ts'',
                      ''7'', ''--binaryFile'', ''output.wasm''])"
    by code_simp+
  have "\<forall>i \<in> set [0..<length ?files].
            is_ran (unit_outcome sample_env
                      (compiler_args (?files ! i) ([] @ [relativeEntryPath sample_env])
                         (flagList (flags_of ?c))))"
    using o a by (simp add: less_Suc_eq del: One_nat_def)
  then have "started
               (\<lambda>i. is_ran (unit_outcome sample_env
                      (compiler_args (?files ! i) ([] @ [relativeEntryPath sample_env])
                         (flagList (flags_of ?c))))) [0..<length ?files]
             = [0..<length ?files]"
    by (rule started_all)
  then have "invoked (asp_run sample_env ''as-pect.config.js'' (Inr ?c) (\<lambda>n. [0..<n]))
       = map (\<lambda>i. compiler_args (?files ! i) ([] @ [relativeEntryPath sample_env])
                      (flagList (flags_of ?c))) [0..<length ?files]"
    unfolding asp_run_invoked [OF l r] by (simp only:)
  then have run: "invoked (asp_run sample_env ''as-pect.config.js'' (Inr ?c) (\<lambda>n. [0..<n]))
       = [[''t/a.include.ts'', ''node_modules/as-pect/assembly/index.ts'',
           ''7'', ''--binaryFile'', ''output.wasm''],
          [''t/a.spec.ts'', ''node_modules/as-pect/assembly/index.ts'',
           ''7'', ''--binaryFile'', ''output.wasm'']]"
    using a by (simp add: upt_rec [of 0] upt_rec [of 1])
  from fl run show ?thesis by simp
qed

theorem compiler_invocation_witness:
  "object_entries default_flags = default_flags
   \<and> invoked (asp_run sample_env ''as-pect.config.js''
                (Inr (JObject (empty_object\<lparr>c_include := Some [''t/a.*''],
                                             c_add := Some [''t/*.include.ts'']\<rparr>)))
                (\<lambda>n. [0..<n]))
       = [[''t/a.include.ts'', ''t/a.include.ts'', ''t/skip.include.ts'',
           ''node_modules/as-pect/assembly/index.ts'',
           ''--validate'', ''--debug'', ''--measure'', ''--sourceMap'',
           ''--binaryFile'', ''output.wasm''],
          [''t/a.spec.ts'', ''t/a.include.ts'', ''t/skip.include.ts'',
           ''node_modules/as-pect/assembly/index.ts'',
           ''--validate'', ''--debug'', ''--measure'', ''--sourceMap'',
           ''--binaryFile'', ''output.wasm'']]
   \<and> invoked (asp_deferred sample_env ''as-pect.config.js''
                (Inr (JObject (empty_object\<lparr>c_include := Some [''t/a.*''],
                                             c_add := Some [''t/*.include.ts'']\<rparr>)))
                (\<lambda>n. rev [0..<n]))
       = [[''t/a.include.ts'', ''t/a.include.ts'', ''t/skip.include.ts'',
           ''node_modules/as-pect/assembly/index.ts'',
           ''--validate'', ''--debug'', ''--measure'', ''--sourceMap'',
           ''--binaryFile'', ''output.wasm''],
          [''t/a.spec.ts'', ''t/a.include.ts'', ''t/skip.include.ts'',
           ''node_modules/as-pect/assembly/index.ts'',
           ''--validate'', ''--debug'', ''--measure'', ''--sourceMap'',
           ''--binaryFile'', ''output.wasm'']]"
proof -
  let ?c = "JObject (empty_object\<lparr>c_include := Some [''t/a.*''],
                                   c_add := Some [''t/*.include.ts'']\<rparr>)"
  let ?files = "[''t/a.include.ts'', ''t/a.spec.ts'']"
  let ?added = "[''t/a.include.ts'', ''t/skip.include.ts'']"
  have l: "load_configuration (Inr ?c) = Loaded ?c"
    by (simp add: load_configuration_def)
  have r: "resolve_files sample_env (include_of ?c) (add_of ?c) (disclude_of ?c)
             = (?files, ?added)"
    by code_simp
  have f: "flags_of ?c = default_flags"
    by (simp add: flags_of_def empty_object_def)
  have e: "relativeEntryPath sample_env = ''node_modules/as-pect/assembly/index.ts''"
    by (simp add: sample_env_def)
  have n: "list_all (\<lambda>(flag, options). \<not> is_array_index flag) default_flags"
    by (simp add: default_flags_def is_array_index_def)
  have o: "is_ran (unit_outcome sample_env
                     (compiler_args (?files ! 0) (?added @ [relativeEntryPath sample_env])
                        (flagList (flags_of ?c))))"
    "is_ran (unit_outcome sample_env
                     (compiler_args (?files ! 1) (?added @ [relativeEntryPath sample_env])
                        (flagList (flags_of ?c))))"
    by code_simp+
  have all: "\<forall>i<length ?files.
            is_ran (unit_outcome sample_env
                      (compiler_args (?files ! i) (?added @ [relativeEntryPath sample_env])
                         (flagList (flags_of ?c))))"
    using o by (simp add: less_Suc_eq del: One_nat_def)
  note t = compiler_invocation [OF l r, where flags = default_flags
      and path = "''as-pect.config.js''" and order = "\<lambda>n. rev [0..<n]"]
  from t n have en: "object_entries default_flags = default_flags"
    by blast
  from t all have "invoked (asp_run sample_env ''as-pect.config.js'' (Inr ?c) (\<lambda>n. [0..<n]))
                = map (\<lambda>file. [file] @ ?added @ [relativeEntryPath sample_env]
                                @ concat (map (\<lambda>(flag, options). flag # options)
                                            (object_entries (flags_of ?c))))
                    ?files"
    by blast
  then have one: "invoked (asp_run sample_env ''as-pect.config.js'' (Inr ?c) (\<lambda>n. [0..<n]))
       = [[''t/a.include.ts'', ''t/a.include.ts'', ''t/skip.include.ts'',
           ''node_modules/as-pect/assembly/index.ts'',
           ''--validate'', ''--debug'', ''--measure'', ''--sourceMap'',
           ''--binaryFile'', ''output.wasm''],
          [''t/a.spec.ts'', ''t/a.include.ts'', ''t/skip.include.ts'',
           ''node_modules/as-pect/assembly/index.ts'',
           ''--validate'', ''--debug'', ''--measure'', ''--sourceMap'',
           ''--binaryFile'', ''output.wasm'']]"
    unfolding f en e by (simp add: default_flags_def)
  from t have "invoked (asp_deferred sample_env ''as-pect.config.js'' (Inr ?c)
                  (\<lambda>n. rev [0..<n]))
                = map (\<lambda>file. [file] @ ?added @ [relativeEntryPath sample_env]
                                @ concat (map (\<lambda>(flag, options). flag # options)
                                            (object_entries (flags_of ?c))))
                    ?files"
    by blast
  then have two: "invoked (asp_deferred sample_env ''as-pect.config.js'' (Inr ?c)
                  (\<lambda>n. rev [0..<n]))
       = [[''t/a.include.ts'', ''t/a.include.ts'', ''t/skip.include.ts'',
           ''node_modules/as-pect/assembly/index.ts'',
           ''--validate'', ''--debug'', ''--measure'', ''--sourceMap'',
           ''--binaryFile'', ''output.wasm''],
          [''t/a.spec.ts'', ''t/a.include.ts'', ''t/skip.include.ts'',
           ''node_modules/as-pect/assembly/index.ts'',
           ''--validate'', ''--debug'', ''--measure'', ''--sourceMap'',
           ''--binaryFile'', ''output.wasm'']]"
    unfolding f en e by (simp add: default_flags_def)
  from en one two show ?thesis by (intro conjI)
qed

subsection \<open>The write sink\<close>

text \<open>
  Claim C5. A write of the compiler for the spec file with index \<open>i\<close>: with the extension
  \<open>.wasm\<close> the contents are stored in \<open>binaries\<close> under \<open>i\<close> and the disk is not written;
  with the extension \<open>.map\<close> they are stored in \<open>sourcemaps\<close> under the name; with any
  other extension they are written at once to the path made of the directory and the base
  name of the spec file and the extension of the artifact. So the disk, after the writes of
  a unit, has received exactly the artifacts of the other kinds, in order.
\<close>

theorem writeFile_spec:
  "(extname E name = ''.wasm'' \<longrightarrow>
      writeFile E file i name contents s = s\<lparr>binaries := (binaries s)(i \<mapsto> contents)\<rparr>
      \<and> disk (writeFile E file i name contents s) = disk s)
   \<and> (extname E name = ''.map'' \<longrightarrow>
      writeFile E file i name contents s
        = s\<lparr>sourcemaps := (sourcemaps s)(name \<mapsto> contents)\<rparr>)
   \<and> (extname E name \<noteq> ''.wasm'' \<and> extname E name \<noteq> ''.map'' \<longrightarrow>
      writeFile E file i name contents s
        = s\<lparr>disk := disk s @
              [(join E (dirname E file)
                  (basename E file (extname E file) @ extname E name), contents)]\<rparr>)
   \<and> disk (fold (\<lambda>(name, contents). writeFile E file i name contents) writes s)
       = disk s
         @ map (\<lambda>(name, contents).
                  (join E (dirname E file)
                     (basename E file (extname E file) @ extname E name), contents))
             (filter (\<lambda>(name, contents).
                        extname E name \<noteq> ''.wasm'' \<and> extname E name \<noteq> ''.map'') writes)"
  using writes_disk [of E "file" i writes s]
  by (simp add: writeFile_def Let_def outfileName_def)

theorem writeFile_spec_witness:
  "binaries (writeFile sample_env ''t/a.spec.ts'' 3 ''output.wasm'' [0, 97] initial_state) 3
     = Some [0, 97]
   \<and> disk (writeFile sample_env ''t/a.spec.ts'' 3 ''output.wasm'' [0, 97] initial_state) = []
   \<and> sourcemaps (writeFile sample_env ''t/a.spec.ts'' 3 ''output.wasm.map'' [123, 125]
                   initial_state) ''output.wasm.map'' = Some [123, 125]
   \<and> disk (writeFile sample_env ''t/a.spec.ts'' 3 ''output.wat'' [40, 41] initial_state)
       = [(''t/a.spec.wat'', [40, 41])]"
proof -
  have x: "extname sample_env ''output.wasm'' = ''.wasm''"
    "extname sample_env ''output.wasm.map'' = ''.map''"
    "extname sample_env ''output.wat'' = ''.wat''"
    "extname sample_env ''t/a.spec.ts'' = ''.ts''"
    by (simp_all add: sample_env_def sample_extname_def sample_basename_def Let_def)
  have b: "join sample_env (dirname sample_env ''t/a.spec.ts'')
             (basename sample_env ''t/a.spec.ts'' ''.ts'' @ ''.wat'') = ''t/a.spec.wat''"
    by (simp add: sample_env_def sample_dirname_def sample_basename_ext_def
        sample_basename_def Let_def)
  show ?thesis
    using writeFile_spec [of sample_env "''output.wasm''" "''t/a.spec.ts''" 3 "[0, 97]"
          initial_state "[]"]
      writeFile_spec [of sample_env "''output.wasm.map''" "''t/a.spec.ts''" 3 "[123, 125]"
          initial_state "[]"]
      writeFile_spec [of sample_env "''output.wat''" "''t/a.spec.ts''" 3 "[40, 41]"
          initial_state "[]"]
    by (simp add: x b initial_state_def)
qed

subsection \<open>The flag of the binary output\<close>

lemma compile_unit_no_binary:
  assumes live: "exited s = None" and i: "i < length files"
    and fresh: "binaries s i = None"
    and asc: "asc_main E (compiler_args (files ! i) added fl) = (writes, None)"
    and none: "captured_binary E writes = None"
  shows "exited (compile_unit E files added fl i s) = Some 1"
    and "stdout (compile_unit E files added fl i s)
           = stdout s @ [''Compiling: '' @ files ! i @ '' '' @ toString (i + 1) @ '' / ''
                           @ toString (length files),
                         no_binary_message (files ! i)]"
    and "loaded (compile_unit E files added fl i s) = loaded s"
proof -
  let ?s1 = "(console_log (''Compiling: '' @ files ! i @ '' '' @ toString (i + 1) @ '' / ''
                           @ toString (length files)) s)
               \<lparr>invoked := invoked s @ [compiler_args (files ! i) added fl]\<rparr>"
  let ?s2 = "fold (\<lambda>(name, contents). writeFile E (files ! i) i name contents) writes ?s1"
  have cu: "compile_unit E files added fl i s = callback E (files ! i) i None ?s2"
    using live i asc by (simp add: compile_unit_def Let_def console_log_def)
  have b: "binaries ?s2 i = None"
    using fresh none by (simp add: writes_binaries_self console_log_def)
  show "exited (compile_unit E files added fl i s) = Some 1"
    unfolding cu callback_no_binary [OF b] by simp
  show "stdout (compile_unit E files added fl i s)
           = stdout s @ [''Compiling: '' @ files ! i @ '' '' @ toString (i + 1) @ '' / ''
                           @ toString (length files),
                         no_binary_message (files ! i)]"
    unfolding cu callback_no_binary [OF b] by (simp add: console_log_def)
  show "loaded (compile_unit E files added fl i s) = loaded s"
    unfolding cu callback_no_binary [OF b] by (simp add: console_log_def)
qed

text \<open>
  Claim C6. The default flags have the flag \<open>--binaryFile\<close>. The flags of a configuration
  that defines \<open>flags\<close> are these flags as they are: the default is not consulted and
  nothing is added. A unit whose compilation, with the flags it was given, reports no error
  and writes no artifact with the extension \<open>.wasm\<close> ends in the fatal condition of the
  missing binary: exit status 1, with that diagnostic, and the runner is not called.
\<close>

theorem mandatory_flag_not_repaired:
  "''--binaryFile'' \<in> fst ` set default_flags
   \<and> ''--binaryFile'' \<in> set (flagList default_flags)
   \<and> (c_flags c = None \<longrightarrow> flags_of (JObject c) = default_flags)
   \<and> (c_flags c = Some flags \<longrightarrow> flags_of (JObject c) = flags)
   \<and> (exited s = None \<and> i < length files \<and> binaries s i = None
        \<and> asc_main E (compiler_args (files ! i) added fl) = (writes, None)
        \<and> (\<forall>w \<in> set writes. extname E (fst w) \<noteq> ''.wasm'')
      \<longrightarrow> exited (compile_unit E files added fl i s) = Some 1
          \<and> last (stdout (compile_unit E files added fl i s)) = no_binary_message (files ! i)
          \<and> loaded (compile_unit E files added fl i s) = loaded s)"
proof (intro conjI impI)
  show "''--binaryFile'' \<in> fst ` set default_flags"
    by (simp add: default_flags_def)
  show "''--binaryFile'' \<in> set (flagList default_flags)"
    by (simp add: default_flags_def flagList_def object_entries_def is_array_index_def)
  show "flags_of (JObject c) = default_flags" if "c_flags c = None"
    using that by (simp add: flags_of_def)
  show "flags_of (JObject c) = flags" if "c_flags c = Some flags"
    using that by (simp add: flags_of_def)
next
  assume a: "exited s = None \<and> i < length files \<and> binaries s i = None
        \<and> asc_main E (compiler_args (files ! i) added fl) = (writes, None)
        \<and> (\<forall>w \<in> set writes. extname E (fst w) \<noteq> ''.wasm'')"
  then have n: "captured_binary E writes = None"
    by (simp add: captured_binary_None)
  from a have live: "exited s = None" and i: "i < length files"
    and fresh: "binaries s i = None"
    and asc: "asc_main E (compiler_args (files ! i) added fl) = (writes, None)"
    by simp_all
  show "exited (compile_unit E files added fl i s) = Some 1"
    by (rule compile_unit_no_binary (1) [OF live i fresh asc n])
  show "last (stdout (compile_unit E files added fl i s)) = no_binary_message (files ! i)"
    by (simp add: compile_unit_no_binary (2) [OF live i fresh asc n])
  show "loaded (compile_unit E files added fl i s) = loaded s"
    by (rule compile_unit_no_binary (3) [OF live i fresh asc n])
qed

theorem mandatory_flag_not_repaired_witness:
  "flags_of (JObject (empty_object\<lparr>c_flags := Some [(''--textFile'', [''output.wat''])]\<rparr>))
     = [(''--textFile'', [''output.wat''])]
   \<and> exited (compile_unit sample_env [''t/a.spec.ts'']
               [''node_modules/as-pect/assembly/index.ts''] [''--textFile'', ''output.wat'']
               0 (start_state [''t/a.spec.ts''] initial_state)) = Some 1
   \<and> last (stdout (compile_unit sample_env [''t/a.spec.ts'']
               [''node_modules/as-pect/assembly/index.ts''] [''--textFile'', ''output.wat'']
               0 (start_state [''t/a.spec.ts''] initial_state)))
       = ''There was no output binary file: t/a.spec.ts. Did you forget to emit the binary?''"
proof -
  have a: "asc_main sample_env
             (compiler_args ([''t/a.spec.ts''] ! 0) [''node_modules/as-pect/assembly/index.ts'']
                [''--textFile'', ''output.wat''])
           = ([(''output.wat'', [40, 41])], None)"
    by (simp add: sample_env_def sample_asc_def compiler_args_def)
  have x: "\<forall>w \<in> set [(''output.wat'', [40, 41::nat])]. extname sample_env (fst w) \<noteq> ''.wasm''"
    by (simp add: sample_env_def sample_extname_def sample_basename_def Let_def)
  have s: "exited (start_state [''t/a.spec.ts''] initial_state) = None"
    "binaries (start_state [''t/a.spec.ts''] initial_state) 0 = None"
    by (simp_all add: start_state_def initial_state_def)
  have c: "c_flags (empty_object\<lparr>c_flags := Some [(''--textFile'', [''output.wat''])]\<rparr>)
             = Some [(''--textFile'', [''output.wat''])]"
    by simp
  show ?thesis
    using mandatory_flag_not_repaired
      [of "empty_object\<lparr>c_flags := Some [(''--textFile'', [''output.wat''])]\<rparr>"
        "[(''--textFile'', [''output.wat''])]"
        "start_state [''t/a.spec.ts''] initial_state" 0 "[''t/a.spec.ts'']" sample_env
        "[''node_modules/as-pect/assembly/index.ts'']" "[''--textFile'', ''output.wat'']"
        "[(''output.wat'', [40, 41])]"]
      a x s c
    by (simp add: no_binary_message_def)
qed

subsection \<open>The negation of an expectation\<close>

text \<open>
  Claim C7. For every expectation, \<open>.not\<close> gives an expectation of the same actual value,
  on which every matcher reports the negation of its normal verdict (the verdict it reports
  on \<open>expect\<close> of that value); the matcher is evaluated once, and the guest is left in the
  state that this one evaluation leaves.
\<close>

theorem not_negates:
  "actual (expectation_not e) = actual e
   \<and> report matcher (expectation_not e) g
       = (\<not> fst (matcher (actual e) g), snd (matcher (actual e) g))
   \<and> report matcher (expect (actual e)) g = matcher (actual e) g"
  by (simp add: expectation_not_def report_def expect_def case_prod_beta)

theorem not_negates_witness:
  "report (toBe (Some 42)) (expectation_not (expect (Some (42::int)))) 0 = (False, 1)
   \<and> report (toBe (Some 42)) (expect (Some (42::int))) 0 = (True, 1)"
  using not_negates [of "expect (Some (42::int))" "toBe (Some 42)" 0]
  by (simp add: expect_def toBe_def)

subsection \<open>The check of the configuration\<close>

text \<open>
  Claim C9. The branch that reports the configuration as null or not an object is never
  taken: when \<open>require\<close> throws, the \<open>catch\<close> block exits; when it returns, the variable
  holds the value returned or, for a falsy value, the empty object, and is truthy at the
  check.
\<close>

theorem null_branch_unreachable:
  "load_configuration required \<noteq> NullOrNotObject
   \<and> (\<forall>configuration. load_configuration required = Loaded configuration
          \<longrightarrow> truthy configuration)
   \<and> (\<forall>exported. required = Inr exported \<longrightarrow>
          load_configuration required
            = Loaded (if truthy exported then exported else JObject empty_object))
   \<and> (\<forall>ex. required = Inl ex \<longrightarrow> load_configuration required = ProblemLoading ex)"
  by (cases required) (auto simp: load_configuration_def Let_def)

theorem null_branch_unreachable_witness:
  "load_configuration (Inr JNull) = Loaded (JObject empty_object)
   \<and> truthy (JObject empty_object)
   \<and> load_configuration (Inr JNull) \<noteq> NullOrNotObject"
  using null_branch_unreachable [of "Inr JNull"] by simp

subsection \<open>The source maps\<close>

lemma writeFile_sourcemaps_irrelevant:
  "writeFile E file i name contents (s\<lparr>sourcemaps := m\<rparr>)
     = (writeFile E file i name contents s)
         \<lparr>sourcemaps := (if extname E name \<noteq> ''.wasm'' \<and> extname E name = ''.map''
                          then m(name \<mapsto> contents) else m)\<rparr>"
  by (simp add: writeFile_def Let_def)

lemma writes_sourcemaps_irrelevant:
  "\<exists>m'. fold (\<lambda>(name, contents). writeFile E file i name contents) writes
            (s\<lparr>sourcemaps := m\<rparr>)
        = (fold (\<lambda>(name, contents). writeFile E file i name contents) writes s)
            \<lparr>sourcemaps := m'\<rparr>"
proof (induction writes arbitrary: s m)
  case Nil
  show ?case by (intro exI [of _ m]) simp
next
  case (Cons w writes)
  obtain name contents where w: "w = (name, contents)" by (cases w)
  show ?case
    using Cons.IH [where s = "writeFile E file i name contents s"]
    by (simp add: w writeFile_sourcemaps_irrelevant)
qed

lemma callback_sourcemaps_irrelevant:
  "callback E file i error (s\<lparr>sourcemaps := m\<rparr>)
     = (callback E file i error s)\<lparr>sourcemaps := m\<rparr>"
  by (auto simp add: callback_def process_exit_def console_log_def console_error_def Let_def
      split: option.splits)

lemma compile_unit_sourcemaps_irrelevant:
  "\<exists>m'. compile_unit E files added fl i (s\<lparr>sourcemaps := m\<rparr>)
        = (compile_unit E files added fl i s)\<lparr>sourcemaps := m'\<rparr>"
proof (cases "exited s \<noteq> None \<or> \<not> i < length files")
  case True
  then have "compile_unit E files added fl i (s\<lparr>sourcemaps := m\<rparr>) = s\<lparr>sourcemaps := m\<rparr>"
    and "compile_unit E files added fl i s = s"
    by (auto simp: compile_unit_def)
  then show ?thesis by (intro exI [of _ m]) simp
next
  case False
  then have live: "exited s = None" "exited (s\<lparr>sourcemaps := m\<rparr>) = None"
    and i: "i < length files"
    by simp_all
  obtain writes error where
    asc: "asc_main E (compiler_args (files ! i) added fl) = (writes, error)"
    by (cases "asc_main E (compiler_args (files ! i) added fl)")
  let ?line = "''Compiling: '' @ files ! i @ '' '' @ toString (i + 1) @ '' / ''
                 @ toString (length files)"
  let ?s1 = "(console_log ?line s)
               \<lparr>invoked := invoked s @ [compiler_args (files ! i) added fl]\<rparr>"
  have e: "(console_log ?line (s\<lparr>sourcemaps := m\<rparr>))
             \<lparr>invoked := invoked (s\<lparr>sourcemaps := m\<rparr>)
                           @ [compiler_args (files ! i) added fl]\<rparr>
           = ?s1\<lparr>sourcemaps := m\<rparr>"
    by (simp add: console_log_def)
  obtain m' where f:
    "fold (\<lambda>(name, contents). writeFile E (files ! i) i name contents) writes
            (?s1\<lparr>sourcemaps := m\<rparr>)
        = (fold (\<lambda>(name, contents). writeFile E (files ! i) i name contents) writes ?s1)
            \<lparr>sourcemaps := m'\<rparr>"
    using writes_sourcemaps_irrelevant by blast
  show ?thesis
    unfolding compile_unit_live [OF live(1) i asc] compile_unit_live [OF live(2) i asc]
      e f callback_sourcemaps_irrelevant
    by (intro exI [of _ m']) (rule refl)
qed

lemma run_units_sourcemaps_irrelevant:
  "\<exists>m'. run_units E files added fl order (s\<lparr>sourcemaps := m\<rparr>)
        = (run_units E files added fl order s)\<lparr>sourcemaps := m'\<rparr>"
proof (induction order arbitrary: s m)
  case Nil
  show ?case by (intro exI [of _ m]) simp
next
  case (Cons i order)
  obtain m1 where "compile_unit E files added fl i (s\<lparr>sourcemaps := m\<rparr>)
        = (compile_unit E files added fl i s)\<lparr>sourcemaps := m1\<rparr>"
    using compile_unit_sourcemaps_irrelevant by blast
  then show ?case
    unfolding run_units_Cons using Cons.IH by simp
qed

text \<open>
  Claim C10. The source maps of all units go to the one map \<open>sourcemaps\<close>, under the name
  of the artifact alone: neither the index nor the spec file is part of the key, and a
  later write under a name replaces the earlier entry. Such a write leaves the disk and the
  binaries as they are. Nothing reads the map: a unit, and a whole run, started with another
  content of \<open>sourcemaps\<close> end in the same state but for the field \<open>sourcemaps\<close> itself, so
  the console, the disk, the arguments of the compiler, the buffers given to the loader and
  the exit status do not depend on it.
\<close>

theorem sourcemaps_shared_unused:
  "(extname E name = ''.map'' \<longrightarrow>
      sourcemaps (writeFile E file i name contents s) = (sourcemaps s)(name \<mapsto> contents)
      \<and> sourcemaps (writeFile E file' j name contents'
                      (writeFile E file i name contents s)) name = Some contents'
      \<and> disk (writeFile E file i name contents s) = disk s
      \<and> binaries (writeFile E file i name contents s) = binaries s)
   \<and> (\<exists>m'. compile_unit E files added fl k (s\<lparr>sourcemaps := m\<rparr>)
             = (compile_unit E files added fl k s)\<lparr>sourcemaps := m'\<rparr>)
   \<and> (\<exists>m'. run_units E files added fl order (s\<lparr>sourcemaps := m\<rparr>)
             = (run_units E files added fl order s)\<lparr>sourcemaps := m'\<rparr>)"
proof (intro conjI impI)
  assume x: "extname E name = ''.map''"
  then show "sourcemaps (writeFile E file i name contents s) = (sourcemaps s)(name \<mapsto> contents)"
    and "sourcemaps (writeFile E file' j name contents'
                      (writeFile E file i name contents s)) name = Some contents'"
    and "disk (writeFile E file i name contents s) = disk s"
    and "binaries (writeFile E file i name contents s) = binaries s"
    by (simp_all add: writeFile_def)
next
  show "\<exists>m'. compile_unit E files added fl k (s\<lparr>sourcemaps := m\<rparr>)
             = (compile_unit E files added fl k s)\<lparr>sourcemaps := m'\<rparr>"
    by (rule compile_unit_sourcemaps_irrelevant)
  show "\<exists>m'. run_units E files added fl order (s\<lparr>sourcemaps := m\<rparr>)
             = (run_units E files added fl order s)\<lparr>sourcemaps := m'\<rparr>"
    by (rule run_units_sourcemaps_irrelevant)
qed

theorem sourcemaps_shared_unused_witness:
  "sourcemaps (writeFile sample_env ''t/b.spec.ts'' 1 ''output.wasm.map'' [9]
                 (writeFile sample_env ''t/a.spec.ts'' 0 ''output.wasm.map'' [123, 125]
                    initial_state)) ''output.wasm.map'' = Some [9]
   \<and> disk (writeFile sample_env ''t/a.spec.ts'' 0 ''output.wasm.map'' [123, 125]
             initial_state) = []"
proof -
  have x: "extname sample_env ''output.wasm.map'' = ''.map''"
    by (simp add: sample_env_def sample_extname_def sample_basename_def Let_def)
  show ?thesis
    using sourcemaps_shared_unused [of sample_env "''output.wasm.map''" "''t/a.spec.ts''" 0
        "[123, 125]" initial_state "''t/b.spec.ts''" 1 "[9]"] x
    by (simp add: initial_state_def)
qed

end
